theory Spec2Isabelle
  imports Main "HOL-Library.Sublist"
begin

section \<open>JavaScript values\<close>

text \<open>
  The formatter of \<^verbatim>\<open>src/tools/reports.ts\<close> takes its report result as \<^verbatim>\<open>any\<close>: parsed
  JSON. A value is therefore one of the JSON shapes, or \<^verbatim>\<open>undefined\<close> (what reading a
  missing property gives). Numbers are the integers; strings are lists of ASCII
  characters. An object is the list of its own properties in the order
  \<^verbatim>\<open>Object.keys\<close> enumerates them; where a key is listed twice the first binding is the
  property.
\<close>

datatype jsval =
    JUndefined
  | JNull
  | JBool bool
  | JNum int
  | JStr string
  | JArr "jsval list"
  | JObj "(string \<times> jsval) list"

text \<open>
  What the source's own code can raise. \<open>TypeError\<close> is the engine's TypeError (a
  property read on \<^verbatim>\<open>undefined\<close> or \<^verbatim>\<open>null\<close>, a call of something that is not a
  function, a loop over something that is not iterable, an object that cannot be
  converted to a primitive). \<open>Unmodelled\<close> marks the few conversions this
  development does not compute (a string or an array used as a number, a read of a
  member inherited from \<^verbatim>\<open>Object.prototype\<close> whose truthiness is tested): from such a
  point on the model says nothing about the source.
\<close>

datatype fault = TypeError | Unmodelled

type_synonym 'a res = "fault + 'a"

definition bindE :: "'a res \<Rightarrow> ('a \<Rightarrow> 'b res) \<Rightarrow> 'b res" where
  "bindE m f = (case m of Inl e \<Rightarrow> Inl e | Inr x \<Rightarrow> f x)"

primrec mapE :: "('a \<Rightarrow> 'b res) \<Rightarrow> 'a list \<Rightarrow> 'b list res" where
  "mapE f [] = Inr []"
| "mapE f (x # xs) = bindE (f x) (\<lambda>y. bindE (mapE f xs) (\<lambda>ys. Inr (y # ys)))"

subsection \<open>Numbers as decimal text\<close>

definition digitChar :: "nat \<Rightarrow> char" where
  "digitChar d = ''0123456789'' ! d"

fun showNat :: "nat \<Rightarrow> string" where
  "showNat n = (if n < 10 then [digitChar n] else showNat (n div 10) @ [digitChar (n mod 10)])"

declare showNat.simps [simp del]

definition showInt :: "int \<Rightarrow> string" where
  "showInt i = (if i < 0 then CHR ''-'' # showNat (nat (- i)) else showNat (nat i))"

subsection \<open>Truthiness and the operators built on it\<close>

fun truthy :: "jsval \<Rightarrow> bool" where
  "truthy JUndefined = False"
| "truthy JNull = False"
| "truthy (JBool b) = b"
| "truthy (JNum n) = (n \<noteq> 0)"
| "truthy (JStr s) = (s \<noteq> [])"
| "truthy (JArr xs) = True"
| "truthy (JObj kvs) = True"

fun nullish :: "jsval \<Rightarrow> bool" where
  "nullish JUndefined = True"
| "nullish JNull = True"
| "nullish v = False"

text \<open>\<^verbatim>\<open>a || b\<close> and \<^verbatim>\<open>a ?? b\<close>.\<close>

definition orElse :: "jsval \<Rightarrow> jsval \<Rightarrow> jsval" where
  "orElse a b = (if truthy a then a else b)"

definition coalesce :: "jsval \<Rightarrow> jsval \<Rightarrow> jsval" where
  "coalesce a b = (if nullish a then b else a)"

subsection \<open>Property reads\<close>

definition indexOfKey :: "string \<Rightarrow> nat \<Rightarrow> nat option" where
  "indexOfKey k n = find (\<lambda>i. showNat i = k) [0..<n]"

text \<open>
  \<open>getProp v k\<close> is \<^verbatim>\<open>v[k]\<close> for a receiver that is neither \<^verbatim>\<open>undefined\<close> nor
  \<^verbatim>\<open>null\<close>: an own property of an object, the length or an element of an array or a
  string. A member inherited from a prototype reads as \<^verbatim>\<open>undefined\<close>: the formatter
  only ever reads \<^verbatim>\<open>?.label\<close> of such a result, and built-in members have no
  \<^verbatim>\<open>label\<close>.
\<close>

fun getProp :: "jsval \<Rightarrow> string \<Rightarrow> jsval" where
  "getProp (JObj kvs) k = (case map_of kvs k of Some v \<Rightarrow> v | None \<Rightarrow> JUndefined)"
| "getProp (JArr xs) k =
     (if k = ''length'' then JNum (int (length xs))
      else (case indexOfKey k (length xs) of Some i \<Rightarrow> xs ! i | None \<Rightarrow> JUndefined))"
| "getProp (JStr s) k =
     (if k = ''length'' then JNum (int (length s))
      else (case indexOfKey k (length s) of Some i \<Rightarrow> JStr [s ! i] | None \<Rightarrow> JUndefined))"
| "getProp v k = JUndefined"

text \<open>\<^verbatim>\<open>v.k\<close> with nothing known about \<open>v\<close>, and \<^verbatim>\<open>v?.k\<close>.\<close>

definition readProp :: "jsval \<Rightarrow> string \<Rightarrow> jsval res" where
  "readProp v k = (if nullish v then Inl TypeError else Inr (getProp v k))"

definition optProp :: "jsval \<Rightarrow> string \<Rightarrow> jsval" where
  "optProp v k = (if nullish v then JUndefined else getProp v k)"

text \<open>\<^verbatim>\<open>v[i]\<close> for a loop counter \<open>i\<close> and a receiver that is not nullish.\<close>

fun elemAt :: "jsval \<Rightarrow> nat \<Rightarrow> jsval" where
  "elemAt (JArr xs) i = (if i < length xs then xs ! i else JUndefined)"
| "elemAt (JStr s) i = (if i < length s then JStr [s ! i] else JUndefined)"
| "elemAt (JObj kvs) i = (case map_of kvs (showNat i) of Some v \<Rightarrow> v | None \<Rightarrow> JUndefined)"
| "elemAt v i = JUndefined"

primrec ownKeys :: "(string \<times> jsval) list \<Rightarrow> string list" where
  "ownKeys [] = []"
| "ownKeys (p # kvs) = fst p # removeAll (fst p) (ownKeys kvs)"

text \<open>\<^verbatim>\<open>Object.keys(v)\<close> for a receiver that is not nullish.\<close>

fun objectKeys :: "jsval \<Rightarrow> string list" where
  "objectKeys (JObj kvs) = ownKeys kvs"
| "objectKeys (JArr xs) = map showNat [0..<length xs]"
| "objectKeys (JStr s) = map showNat [0..<length s]"
| "objectKeys v = []"

subsection \<open>Conversions\<close>

text \<open>
  \<^verbatim>\<open>String(v)\<close>, as a template literal applies it, and \<^verbatim>\<open>xs.join(sep)\<close>. A plain object
  prints as \<^verbatim>\<open>[object Object]\<close>; one that owns a property named \<^verbatim>\<open>toString\<close> (never a
  function in JSON) cannot be converted, which the engine reports as a TypeError.
\<close>

fun toStr :: "jsval \<Rightarrow> string res"
  and joinWith :: "string \<Rightarrow> jsval list \<Rightarrow> string res" where
  "toStr JUndefined = Inr ''undefined''"
| "toStr JNull = Inr ''null''"
| "toStr (JBool b) = Inr (if b then ''true'' else ''false'')"
| "toStr (JNum n) = Inr (showInt n)"
| "toStr (JStr s) = Inr s"
| "toStr (JArr xs) = joinWith '','' xs"
| "toStr (JObj kvs) =
     (if ''toString'' \<in> fst ` set kvs then Inl TypeError else Inr ''[object Object]'')"
| "joinWith sep [] = Inr []"
| "joinWith sep [x] = (if nullish x then Inr [] else toStr x)"
| "joinWith sep (x # y # ys) =
     (case (if nullish x then Inr [] else toStr x) of
        Inl e \<Rightarrow> Inl e
      | Inr s \<Rightarrow> (case joinWith sep (y # ys) of
                   Inl e \<Rightarrow> Inl e
                 | Inr t \<Rightarrow> Inr (s @ sep @ t)))"

text \<open>The text \<^verbatim>\<open>join\<close> takes for one element: empty for \<^verbatim>\<open>undefined\<close> and \<^verbatim>\<open>null\<close>.\<close>

definition itemText :: "jsval \<Rightarrow> string res" where
  "itemText x = (if nullish x then Inr [] else toStr x)"

text \<open>
  \<^verbatim>\<open>Number(v)\<close>, as \<^verbatim>\<open>v > 0\<close> and \<^verbatim>\<open>i < v\<close> apply it; \<open>None\<close> is NaN. The numeric
  value of a string (and of an array, which converts through its text) is not
  computed here.
\<close>

fun toNumber :: "jsval \<Rightarrow> int option res" where
  "toNumber JUndefined = Inr None"
| "toNumber JNull = Inr (Some 0)"
| "toNumber (JBool b) = Inr (Some (if b then 1 else 0))"
| "toNumber (JNum n) = Inr (Some n)"
| "toNumber (JStr s) = Inl Unmodelled"
| "toNumber (JArr xs) = Inl Unmodelled"
| "toNumber (JObj kvs) = (if ''toString'' \<in> fst ` set kvs then Inl TypeError else Inr None)"

text \<open>\<^verbatim>\<open>v > 0\<close>.\<close>

definition gt0 :: "jsval \<Rightarrow> bool res" where
  "gt0 v = bindE (toNumber v) (\<lambda>n. Inr (case n of None \<Rightarrow> False | Some k \<Rightarrow> 0 < k))"

text \<open>How often \<^verbatim>\<open>for (let i = 0; i < v; i++)\<close> runs its body.\<close>

definition loopBound :: "jsval \<Rightarrow> nat res" where
  "loopBound v = bindE (toNumber v) (\<lambda>n. Inr (case n of None \<Rightarrow> 0 | Some k \<Rightarrow> nat k))"

text \<open>A template literal: its literal chunks and its substitutions, left to right.\<close>

datatype part = Lit string | Sub jsval

fun template :: "part list \<Rightarrow> string res" where
  "template [] = Inr []"
| "template (Lit s # ps) = bindE (template ps) (\<lambda>r. Inr (s @ r))"
| "template (Sub v # ps) = bindE (toStr v) (\<lambda>s. bindE (template ps) (\<lambda>r. Inr (s @ r)))"

text \<open>
  The receiver of \<^verbatim>\<open>.map(...)\<close> must be an array (nothing else in JSON has a callable
  \<^verbatim>\<open>map\<close>); \<^verbatim>\<open>for (const x of v)\<close> runs over an array's elements or a string's
  characters.
\<close>

fun arrayOf :: "jsval \<Rightarrow> jsval list res" where
  "arrayOf (JArr xs) = Inr xs"
| "arrayOf v = Inl TypeError"

fun iterate :: "jsval \<Rightarrow> jsval list res" where
  "iterate (JArr xs) = Inr xs"
| "iterate (JStr s) = Inr (map (\<lambda>c. JStr [c]) s)"
| "iterate v = Inl TypeError"

text \<open>\<^verbatim>\<open>xs.join(sep)\<close> on an array of strings, and \<^verbatim>\<open>lines.join('\n')\<close>.\<close>

fun joinStrings :: "string \<Rightarrow> string list \<Rightarrow> string" where
  "joinStrings sep [] = []"
| "joinStrings sep [l] = l"
| "joinStrings sep (l # m # ls) = l @ sep @ joinStrings sep (m # ls)"

definition joinLines :: "string list \<Rightarrow> string" where
  "joinLines ls = joinStrings ''\<newline>'' ls"

section \<open>The result formatter\<close>

subsection \<open>Aggregates and cells\<close>

text \<open>
  The label of the \<open>i\<close>-th aggregate, lines 153 and 217:
  \<^verbatim>\<open>aggKeys[i] ? (aggregateInfo[aggKeys[i]]?.label || aggKeys[i]) : `Aggregate ${i}`\<close>.
\<close>

definition aggLabel :: "jsval \<Rightarrow> string list \<Rightarrow> nat \<Rightarrow> jsval" where
  "aggLabel aggregateInfo aggKeys i =
     (if i < length aggKeys \<and> truthy (JStr (aggKeys ! i))
      then orElse (optProp (getProp aggregateInfo (aggKeys ! i)) ''label'') (JStr (aggKeys ! i))
      else JStr (''Aggregate '' @ showNat i))"

text \<open>\<^verbatim>\<open>agg.label ?? agg.value ?? 'N/A'\<close>, lines 154 and 218.\<close>

definition aggValue :: "jsval \<Rightarrow> jsval res" where
  "aggValue agg =
     bindE (readProp agg ''label'') (\<lambda>l.
       Inr (coalesce l (coalesce (getProp agg ''value'') (JStr ''N/A''))))"

text \<open>
  One pass of the aggregate loop (lines 151 to 155 with \<open>pre\<close> two spaces, lines 215 to
  219 with \<open>pre\<close> the group's indent and two spaces).
\<close>

definition aggregateLine :: "string \<Rightarrow> jsval \<Rightarrow> string list \<Rightarrow> jsval \<Rightarrow> nat \<Rightarrow> string res" where
  "aggregateLine pre aggregateInfo aggKeys aggregates i =
     bindE (aggValue (elemAt aggregates i)) (\<lambda>v.
       template [Lit pre, Sub (aggLabel aggregateInfo aggKeys i), Lit '': '', Sub v])"

definition aggregateLines :: "string \<Rightarrow> jsval \<Rightarrow> jsval \<Rightarrow> string list res" where
  "aggregateLines pre aggregateInfo aggregates =
     bindE (loopBound (getProp aggregates ''length'')) (\<lambda>n.
       mapE (aggregateLine pre aggregateInfo (objectKeys aggregateInfo) aggregates) [0..<n])"

text \<open>\<^verbatim>\<open>cell.label ?? cell.value ?? ''\<close>, lines 177 and 230.\<close>

definition cellValue :: "jsval \<Rightarrow> jsval res" where
  "cellValue cell =
     bindE (readProp cell ''label'') (\<lambda>l.
       Inr (coalesce l (coalesce (getProp cell ''value'') (JStr []))))"

subsection \<open>The sections of \<^verbatim>\<open>formatReportResults\<close>, in the order they push their lines\<close>

text \<open>Lines 109 to 119: the summary of the report's metadata.\<close>

definition filterLine :: "jsval \<Rightarrow> string res" where
  "filterLine f =
     bindE (readProp f ''column'') (\<lambda>c.
       template [Lit ''  - '', Sub c, Lit '' '', Sub (getProp f ''operator''), Lit '' '',
                 Sub (getProp f ''value'')])"

definition pushSummary :: "jsval \<Rightarrow> string list \<Rightarrow> string list res" where
  "pushSummary metadata lines =
     (if truthy metadata then
        bindE (template [Lit ''Report: '', Sub (getProp metadata ''name'')]) (\<lambda>l1.
        bindE (template [Lit ''Format: '', Sub (getProp metadata ''reportFormat'')]) (\<lambda>l2.
        bindE (gt0 (optProp (getProp metadata ''reportFilters'') ''length'')) (\<lambda>some.
        bindE (if some then
                 bindE (template [Lit ''Active Filters: '',
                                  Sub (getProp (getProp metadata ''reportFilters'') ''length'')]) (\<lambda>l3.
                 bindE (iterate (getProp metadata ''reportFilters'')) (\<lambda>fs.
                 bindE (mapE filterLine fs) (\<lambda>ls. Inr (l3 # ls))))
               else Inr []) (\<lambda>fl.
          Inr (lines @ [l1, l2] @ fl @ [[]])))))
      else Inr lines)"

text \<open>Lines 137 to 142: one line per kind of grouping that is there.\<close>

definition pushCount :: "string \<Rightarrow> jsval \<Rightarrow> string list \<Rightarrow> string list res" where
  "pushCount title groupings lines =
     bindE (gt0 (getProp groupings ''length'')) (\<lambda>some.
       if some then
         bindE (template [Lit title, Sub (getProp groupings ''length'')]) (\<lambda>l. Inr (lines @ [l]))
       else Inr lines)"

text \<open>Lines 145 to 157: the grand totals, bucket \<^verbatim>\<open>T!T\<close> of the fact map.\<close>

definition pushGrandTotals :: "jsval \<Rightarrow> jsval \<Rightarrow> string list \<Rightarrow> string list res" where
  "pushGrandTotals factMap aggregateInfo lines =
     (if truthy (getProp factMap ''T!T'') then
        (let grandTotals = getProp factMap ''T!T'' in
         bindE (gt0 (optProp (getProp grandTotals ''aggregates'') ''length'')) (\<lambda>some.
           if some then
             bindE (aggregateLines ''  '' aggregateInfo (getProp grandTotals ''aggregates'')) (\<lambda>ls.
               Inr (lines @ [[], ''Grand Totals:''] @ ls))
           else Inr lines))
      else Inr lines)"

text \<open>Lines 160 to 180: the table of detail rows.\<close>

definition headerLabel :: "jsval \<Rightarrow> jsval \<Rightarrow> jsval res" where
  "headerLabel columnInfo col =
     bindE (toStr col) (\<lambda>k. Inr (orElse (optProp (getProp columnInfo k) ''label'') col))"

definition detailRowLine :: "jsval \<Rightarrow> string res" where
  "detailRowLine row =
     bindE (readProp row ''dataCells'') (\<lambda>dataCells.
     bindE (arrayOf dataCells) (\<lambda>cs.
     bindE (mapE cellValue cs) (\<lambda>cells.
     bindE (joinWith '' | '' cells) (\<lambda>joined.
       Inr (''  | '' @ joined @ '' |'')))))"

definition pushDetailRows ::
  "bool \<Rightarrow> jsval \<Rightarrow> jsval \<Rightarrow> jsval \<Rightarrow> string list \<Rightarrow> string list res" where
  "pushDetailRows includeDetails factMap metadata columnInfo lines =
     (if includeDetails \<and> truthy (optProp (getProp factMap ''T!T'') ''rows'') then
        (let rows = getProp (getProp factMap ''T!T'') ''rows'' in
         bindE (template [Lit ''Detail Rows ('', Sub (getProp rows ''length''), Lit ''):'']) (\<lambda>title.
         bindE (arrayOf (orElse (optProp metadata ''detailColumns'') (JArr []))) (\<lambda>detailColumns.
         bindE (mapE (headerLabel columnInfo) detailColumns) (\<lambda>headerLabels.
         bindE (if headerLabels \<noteq> [] then
                  bindE (joinWith '' | '' headerLabels) (\<lambda>h.
                  bindE (joinWith '' | '' (map (\<lambda>l. JStr ''---'') headerLabels)) (\<lambda>d.
                    Inr [''  | '' @ h @ '' |'', ''  | '' @ d @ '' |'']))
                else Inr []) (\<lambda>header.
         bindE (iterate rows) (\<lambda>rs.
         bindE (mapE detailRowLine rs) (\<lambda>body.
           Inr (lines @ [[], title] @ header @ body))))))))
      else Inr lines)"

subsection \<open>\<^verbatim>\<open>formatGroupings\<close>\<close>

text \<open>Line 205: \<^verbatim>\<open>'  '.repeat(depth + 1)\<close>.\<close>

definition indentOf :: "nat \<Rightarrow> string" where
  "indentOf depth = concat (replicate (depth + 1) ''  '')"

text \<open>Line 208: the header of a group.\<close>

definition groupHeader :: "jsval \<Rightarrow> nat \<Rightarrow> string res" where
  "groupHeader grp depth =
     bindE (readProp grp ''label'') (\<lambda>l.
       template [Lit (indentOf depth), Sub l, Lit '' ('', Sub (getProp grp ''value''), Lit ''):''])"

text \<open>Lines 211 and 212: the group's bucket of the fact map, \<^verbatim>\<open>factMap[`${group.key}!T`]\<close>.\<close>

definition groupData :: "jsval \<Rightarrow> jsval \<Rightarrow> jsval res" where
  "groupData factMap grp =
     bindE (template [Sub (getProp grp ''key''), Lit ''!T'']) (\<lambda>key. Inr (getProp factMap key))"

text \<open>Lines 213 to 220: the group's subtotals.\<close>

definition groupSubtotals :: "jsval \<Rightarrow> jsval \<Rightarrow> nat \<Rightarrow> string list res" where
  "groupSubtotals aggregateInfo bucket depth =
     bindE (gt0 (optProp (optProp bucket ''aggregates'') ''length'')) (\<lambda>some.
       if some then aggregateLines (indentOf depth @ ''  '') aggregateInfo (getProp bucket ''aggregates'')
       else Inr [])"

text \<open>Lines 223 to 234: the group's detail rows, one line per row.\<close>

definition groupCell :: "jsval \<Rightarrow> jsval \<Rightarrow> nat \<times> jsval \<Rightarrow> jsval res" where
  "groupCell columnInfo detailColumns ic =
     (let idx = fst ic; cell = snd ic; colName = elemAt detailColumns idx in
      bindE (toStr colName) (\<lambda>k.
      bindE (cellValue cell) (\<lambda>v.
      bindE (template [Sub (orElse (orElse (optProp (getProp columnInfo k) ''label'') colName)
                                   (JStr (''Col'' @ showNat idx))),
                       Lit '': '', Sub v]) (\<lambda>t. Inr (JStr t)))))"

definition groupRowLine :: "jsval \<Rightarrow> jsval \<Rightarrow> nat \<Rightarrow> jsval \<Rightarrow> string res" where
  "groupRowLine columnInfo detailColumns depth row =
     bindE (readProp row ''dataCells'') (\<lambda>dataCells.
     bindE (arrayOf dataCells) (\<lambda>cs.
     bindE (mapE (groupCell columnInfo detailColumns) (zip [0..<length cs] cs)) (\<lambda>cells.
     bindE (joinWith '', '' cells) (\<lambda>joined.
       Inr (indentOf depth @ ''    '' @ joined)))))"

definition groupRows :: "jsval \<Rightarrow> jsval \<Rightarrow> bool \<Rightarrow> jsval \<Rightarrow> nat \<Rightarrow> string list res" where
  "groupRows columnInfo metadata includeDetails bucket depth =
     (if includeDetails then
        bindE (gt0 (optProp (optProp bucket ''rows'') ''length'')) (\<lambda>some.
          if some then
            (let rows = getProp bucket ''rows'' in
             bindE (template [Lit (indentOf depth), Lit ''  Rows ('', Sub (getProp rows ''length''),
                              Lit ''):'']) (\<lambda>title.
             bindE (iterate rows) (\<lambda>rs.
             bindE (mapE (groupRowLine columnInfo
                            (orElse (optProp metadata ''detailColumns'') (JArr [])) depth) rs) (\<lambda>ls.
               Inr (title # ls)))))
          else Inr [])
      else Inr [])"

text \<open>
  Everything one pass of the loop of line 207 pushes before it recurses: the header,
  the subtotals, the rows.
\<close>

definition groupOwnLines ::
  "jsval \<Rightarrow> jsval \<Rightarrow> jsval \<Rightarrow> jsval \<Rightarrow> bool \<Rightarrow> nat \<Rightarrow> jsval \<Rightarrow> string list res" where
  "groupOwnLines factMap aggregateInfo columnInfo metadata includeDetails depth grp =
     bindE (groupHeader grp depth) (\<lambda>header.
     bindE (groupData factMap grp) (\<lambda>bucket.
     bindE (groupSubtotals aggregateInfo bucket depth) (\<lambda>subtotals.
     bindE (groupRows columnInfo metadata includeDetails bucket depth) (\<lambda>rows.
       Inr (header # subtotals @ rows)))))"

text \<open>\<^verbatim>\<open>group.groupings?.length > 0\<close>, line 237, for a group whose header has been read.\<close>

definition hasSubGroupings :: "jsval \<Rightarrow> bool res" where
  "hasSubGroupings grp = gt0 (optProp (getProp grp ''groupings'') ''length'')"

text \<open>
  Lines 195 to 241. \<open>formatGroupings\<close> starts the loop of line 207 over what
  \<^verbatim>\<open>groupings\<close> yields; \<open>formatGroupLoop\<close> is that loop, \<open>lines\<close> the array the source
  pushes to. A fault leaves the function at once, as the exception does.
\<close>

function formatGroupings ::
    "jsval \<Rightarrow> jsval \<Rightarrow> jsval \<Rightarrow> jsval \<Rightarrow> jsval \<Rightarrow> bool \<Rightarrow> string list \<Rightarrow> nat \<Rightarrow> string list res"
  and formatGroupLoop ::
    "jsval list \<Rightarrow> jsval \<Rightarrow> jsval \<Rightarrow> jsval \<Rightarrow> jsval \<Rightarrow> bool \<Rightarrow> string list \<Rightarrow> nat \<Rightarrow> string list res"
  where
  "formatGroupings groupings factMap aggregateInfo columnInfo metadata includeDetails lines depth =
     (case iterate groupings of
        Inl e \<Rightarrow> Inl e
      | Inr gs \<Rightarrow> formatGroupLoop gs factMap aggregateInfo columnInfo metadata includeDetails lines depth)"
| "formatGroupLoop [] factMap aggregateInfo columnInfo metadata includeDetails lines depth = Inr lines"
| "formatGroupLoop (grp # rest) factMap aggregateInfo columnInfo metadata includeDetails lines depth =
     (case groupOwnLines factMap aggregateInfo columnInfo metadata includeDetails depth grp of
        Inl e \<Rightarrow> Inl e
      | Inr own \<Rightarrow>
          (case hasSubGroupings grp of
             Inl e \<Rightarrow> Inl e
           | Inr sub \<Rightarrow>
               (case (if sub
                      then formatGroupings (getProp grp ''groupings'') factMap aggregateInfo columnInfo
                             metadata includeDetails (lines @ own) (depth + 1)
                      else Inr (lines @ own)) of
                  Inl e \<Rightarrow> Inl e
                | Inr lines' \<Rightarrow>
                    formatGroupLoop rest factMap aggregateInfo columnInfo metadata includeDetails
                      lines' depth)))"
  by pat_completeness auto
termination
proof (relation
    "(\<lambda>x. case x of Inl a \<Rightarrow> size (fst a) | Inr b \<Rightarrow> sum_list (map size (fst b)))
       <*mlex*> (\<lambda>x. case x of Inl a \<Rightarrow> Suc 0 | Inr b \<Rightarrow> 0)
       <*mlex*> measure (\<lambda>x. case x of Inl a \<Rightarrow> 0 | Inr b \<Rightarrow> length (fst b))", goal_cases)
  case 1
  show ?case by (intro wf_mlex wf_measure)
next
  case (2 groupings factMap aggregateInfo columnInfo metadata includeDetails lines depth gs)
  show ?case
  proof (cases groupings)
    case (JArr xs)
    with 2 have "gs = xs" by simp
    moreover have "sum_list (map size xs) \<le> size_list size xs"
      by (induction xs) auto
    ultimately show ?thesis using JArr by (intro mlex_less) simp
  next
    case (JStr s)
    with 2 have gs: "gs = map (\<lambda>c. JStr [c]) s" by simp
    have "sum_list (map size gs) = 0" unfolding gs by (induction s) auto
    then show ?thesis using JStr by (intro mlex_leq mlex_less) simp_all
  qed (use 2 in auto)
next
  case (3 grp rest factMap aggregateInfo columnInfo metadata includeDetails lines depth own sub)
  then have sub: "hasSubGroupings grp = Inr True" by simp
  have digit: "digitChar k \<in> set ''0123456789''" if "k < 10" for k
    unfolding digitChar_def using that by (intro nth_mem) simp
  have digits: "set (showNat n) \<subseteq> set ''0123456789''" for n
  proof (induction n rule: showNat.induct)
    case (1 n)
    show ?case
    proof (cases "n < 10")
      case True
      then show ?thesis using digit[of n] by (subst showNat.simps) simp
    next
      case False
      have "n mod 10 < 10" by simp
      then show ?thesis using False 1 digit[of "n mod 10"] by (subst showNat.simps) simp
    qed
  qed
  have "showNat i \<noteq> ''groupings''" for i
  proof
    assume "showNat i = ''groupings''"
    then have "CHR ''g'' \<in> set (showNat i)" by simp
    then show False using digits[of i] by auto
  qed
  then have noIndex: "indexOfKey ''groupings'' n = None" for n
    by (simp add: indexOfKey_def find_None_iff)
  have inObj: "map_of kvs k = Some v \<Longrightarrow> size v < size (JObj kvs)" for kvs k v
    by (induction kvs) (auto split: if_splits)
  have "size (getProp grp ''groupings'') < size grp"
  proof (cases grp)
    case (JObj kvs)
    then show ?thesis using inObj[of kvs "''groupings''"] by (auto split: option.splits)
  qed (use sub in \<open>auto simp: hasSubGroupings_def gt0_def bindE_def optProp_def noIndex\<close>)
  then show ?case by (intro mlex_less) simp
next
  case (4 grp rest factMap aggregateInfo columnInfo metadata includeDetails lines depth own sub lines')
  show ?case by (intro mlex_leq mlex_less) simp_all
qed

declare formatGroupings.simps [simp del]

text \<open>
  The grouping nodes the recursion visits, each with its depth: \<open>groupAt groupings d g e\<close>
  says that the call of \<^verbatim>\<open>formatGroupings\<close> on \<open>groupings\<close> at depth \<open>d\<close> reaches the
  node \<open>g\<close> at depth \<open>e\<close>, either in its own loop or through the recursive call of
  line 238 on the sub-groupings of a node \<open>p\<close> of that loop.
\<close>

inductive groupAt :: "jsval \<Rightarrow> nat \<Rightarrow> jsval \<Rightarrow> nat \<Rightarrow> bool" where
  here: "iterate groupings = Inr gs \<Longrightarrow> g \<in> set gs \<Longrightarrow> groupAt groupings d g d"
| below: "iterate groupings = Inr gs \<Longrightarrow> p \<in> set gs \<Longrightarrow> hasSubGroupings p = Inr True \<Longrightarrow>
          groupAt (getProp p ''groupings'') (Suc d) g e \<Longrightarrow> groupAt groupings d g e"

code_pred groupAt .

subsection \<open>\<^verbatim>\<open>formatReportResults\<close>\<close>

text \<open>
  Lines 104 to 190, up to the final \<^verbatim>\<open>join\<close>: the lines the formatter has pushed when it
  returns. \<^verbatim>\<open>result.reportMetadata\<close> is the first read, and the one that raises on a
  result that is \<^verbatim>\<open>undefined\<close> or \<^verbatim>\<open>null\<close>.
\<close>

definition formatReportLines :: "jsval \<Rightarrow> bool \<Rightarrow> string list res" where
  "formatReportLines result includeDetails =
     bindE (readProp result ''reportMetadata'') (\<lambda>metadata.
     bindE (pushSummary metadata []) (\<lambda>lines1.
       (let extendedMeta = getProp result ''reportExtendedMetadata'';
            columnInfo = orElse (optProp extendedMeta ''detailColumnInfo'') (JObj []);
            aggregateInfo = orElse (optProp extendedMeta ''aggregateColumnInfo'') (JObj []);
            factMap = getProp result ''factMap''
        in if \<not> truthy factMap then Inr (lines1 @ [''No data returned.''])
           else
             (let groupingsDown =
                    orElse (optProp (getProp result ''groupingsDown'') ''groupings'') (JArr []);
                  groupingsAcross =
                    orElse (optProp (getProp result ''groupingsAcross'') ''groupings'') (JArr [])
              in bindE (pushCount ''Row Groupings: '' groupingsDown lines1) (\<lambda>lines2.
                 bindE (pushCount ''Column Groupings: '' groupingsAcross lines2) (\<lambda>lines3.
                 bindE (pushGrandTotals factMap aggregateInfo lines3) (\<lambda>lines4.
                 bindE (pushDetailRows includeDetails factMap metadata columnInfo lines4) (\<lambda>lines5.
                 bindE (gt0 (getProp groupingsDown ''length'')) (\<lambda>grouped.
                   if grouped then
                     formatGroupings groupingsDown factMap aggregateInfo columnInfo metadata
                       includeDetails (lines5 @ [[], ''Grouped Results:'']) 0
                   else Inr lines5)))))))))"

definition formatReportResults :: "jsval \<Rightarrow> bool \<Rightarrow> string res" where
  "formatReportResults result includeDetails =
     bindE (formatReportLines result includeDetails) (\<lambda>lines. Inr (joinLines lines))"

section \<open>The request dispatcher\<close>

subsection \<open>Requests, collaborator calls and replies\<close>

text \<open>Lines 85 to 99: \<^verbatim>\<open>ReportFilter\<close> and \<^verbatim>\<open>ManageReportsArgs\<close>, optional fields as options.\<close>

record reportFilter =
  fColumn :: string
  fOperator :: string
  fValue :: string

datatype operation =
    OpList
  | OpDescribe
  | OpExecute
  | OpExecuteAsync
  | OpGetInstances
  | OpGetInstanceResults

record manageReportsArgs =
  operation :: operation
  reportId :: "string option"
  instanceId :: "string option"
  includeDetails :: "bool option"
  filters :: "reportFilter list option"
  queryFilter :: "string option"
  limit :: "int option"

text \<open>The operation as the string the request carries.\<close>

fun opName :: "operation \<Rightarrow> string" where
  "opName OpList = ''list''"
| "opName OpDescribe = ''describe''"
| "opName OpExecute = ''execute''"
| "opName OpExecuteAsync = ''executeAsync''"
| "opName OpGetInstances = ''getInstances''"
| "opName OpGetInstanceResults = ''getInstanceResults''"

text \<open>
  The remote calls the handler can issue on \<^verbatim>\<open>conn\<close>: \<^verbatim>\<open>conn.query(soql)\<close>,
  \<^verbatim>\<open>conn.analytics.reports()\<close>, and on the handle \<^verbatim>\<open>conn.analytics.report(reportId)\<close> the
  methods \<^verbatim>\<open>describe()\<close>, \<^verbatim>\<open>execute(options)\<close>, \<^verbatim>\<open>executeAsync(options)\<close>,
  \<^verbatim>\<open>instances()\<close> and \<^verbatim>\<open>instance(instanceId).retrieve()\<close>. The source calls nothing
  else of the connection.
\<close>

datatype call =
    CallQuery string
  | CallReports
  | CallDescribe string
  | CallExecute string jsval
  | CallExecuteAsync string jsval
  | CallInstances string
  | CallRetrieve string string

text \<open>
  What an awaited call can end in: a value, or something thrown, which is an
  \<^verbatim>\<open>Error\<close> with its message or any other value.
\<close>

datatype thrown = ErrorObject string | Thrown jsval

type_synonym connection = "call \<Rightarrow> thrown + jsval"

text \<open>The reply \<^verbatim>\<open>{content: [{type: "text", text}], isError}\<close>.\<close>

record reply =
  replyText :: string
  isError :: bool

subsection \<open>Truthiness of the request's fields\<close>

text \<open>\<^verbatim>\<open>if (s)\<close> for an optional string: there, and not empty.\<close>

definition nonEmpty :: "string option \<Rightarrow> string option" where
  "nonEmpty s = (case s of None \<Rightarrow> None | Some t \<Rightarrow> if t = [] then None else Some t)"

subsection \<open>Building the requests\<close>

text \<open>Lines 251 to 253: the SOQL of \<^verbatim>\<open>list\<close> with a query filter.\<close>

definition listSoql :: "string \<Rightarrow> int option \<Rightarrow> string" where
  "listSoql q lim =
     ''SELECT Id, Name, Description, Format, DeveloperName, FolderName, LastRunDate, CreatedDate, LastModifiedDate FROM Report WHERE '' @ q
       @ (case lim of
            Some n \<Rightarrow> if n \<noteq> 0 then '' LIMIT '' @ showInt n else '' LIMIT 200''
          | None \<Rightarrow> '' LIMIT 200'')"

text \<open>Lines 406 to 410 and 445 to 449: the copy of one filter.\<close>

definition filterObject :: "reportFilter \<Rightarrow> jsval" where
  "filterObject f =
     JObj [(''column'', JStr (fColumn f)), (''operator'', JStr (fOperator f)),
           (''value'', JStr (fValue f))]"

text \<open>Lines 396 to 413: the options of \<^verbatim>\<open>execute\<close>, an object that starts empty.\<close>

definition executeOptions :: "bool option \<Rightarrow> reportFilter list option \<Rightarrow> jsval" where
  "executeOptions incl fs =
     JObj ((if incl = Some True then [(''details'', JBool True)] else [])
           @ (case fs of
                Some xs \<Rightarrow>
                  if 0 < length xs then
                    [(''metadata'',
                      JObj [(''reportMetadata'',
                             JObj [(''reportFilters'', JArr (map filterObject xs))])])]
                  else []
              | None \<Rightarrow> []))"

text \<open>Lines 436 to 452: the options of \<^verbatim>\<open>executeAsync\<close>.\<close>

definition executeAsyncOptions :: "bool option \<Rightarrow> reportFilter list option \<Rightarrow> jsval" where
  "executeAsyncOptions incl fs =
     JObj ((if incl = Some True then [(''details'', JBool True)] else [])
           @ (case fs of
                Some xs \<Rightarrow>
                  if 0 < length xs then
                    [(''metadata'',
                      JObj [(''reportMetadata'',
                             JObj [(''reportFilters'', JArr (map filterObject xs))])])]
                  else []
              | None \<Rightarrow> []))"

subsection \<open>Rendering what the collaborator returns\<close>

text \<open>Lines 256 to 267 and 272: the records of a SOQL query.\<close>

definition orNA :: "jsval \<Rightarrow> jsval" where
  "orNA v = orElse v (JStr ''N/A'')"

definition queryRecordBlock :: "nat \<times> jsval \<Rightarrow> string res" where
  "queryRecordBlock ir =
     (let index = fst ir; r = snd ir in
      bindE (readProp r ''Name'') (\<lambda>name.
      bindE (template [Lit (showNat (index + 1)), Lit ''. '', Sub name]) (\<lambda>p1.
      bindE (template [Lit ''   ID: '', Sub (getProp r ''Id'')]) (\<lambda>p2.
      bindE (template [Lit ''   Developer Name: '', Sub (orNA (getProp r ''DeveloperName''))]) (\<lambda>p3.
      bindE (template [Lit ''   Format: '', Sub (orNA (getProp r ''Format''))]) (\<lambda>p4.
      bindE (template [Lit ''   Folder: '', Sub (orNA (getProp r ''FolderName''))]) (\<lambda>p5.
      bindE (if truthy (getProp r ''Description'')
             then bindE (template [Lit ''   Description: '', Sub (getProp r ''Description'')])
                    (\<lambda>p. Inr [p])
             else Inr []) (\<lambda>p6.
      bindE (if truthy (getProp r ''LastRunDate'')
             then bindE (template [Lit ''   Last Run: '', Sub (getProp r ''LastRunDate'')])
                    (\<lambda>p. Inr [p])
             else Inr []) (\<lambda>p7.
        Inr (joinStrings ''\<newline>'' ([p1, p2, p3, p4, p5] @ p6 @ p7)))))))))))"

definition renderQuery :: "jsval \<Rightarrow> string res" where
  "renderQuery result =
     bindE (readProp result ''records'') (\<lambda>records.
     bindE (arrayOf records) (\<lambda>rs.
     bindE (mapE queryRecordBlock (zip [0..<length rs] rs)) (\<lambda>blocks.
       template [Lit ''Found '', Sub (getProp records ''length''), Lit '' reports:\<newline>\<newline>'',
                 Lit (joinStrings ''\<newline>\<newline>'' blocks)])))"

text \<open>Lines 279 to 286 and 291: the recently viewed reports.\<close>

definition recentReportBlock :: "nat \<times> jsval \<Rightarrow> string res" where
  "recentReportBlock ir =
     (let index = fst ir; r = snd ir in
      bindE (readProp r ''name'') (\<lambda>name.
      bindE (template [Lit (showNat (index + 1)), Lit ''. '', Sub name]) (\<lambda>p1.
      bindE (template [Lit ''   ID: '', Sub (getProp r ''id'')]) (\<lambda>p2.
      bindE (if truthy (getProp r ''url'')
             then bindE (template [Lit ''   URL: '', Sub (getProp r ''url'')]) (\<lambda>p. Inr [p])
             else Inr []) (\<lambda>p3.
        Inr (joinStrings ''\<newline>'' ([p1, p2] @ p3)))))))"

definition renderReports :: "jsval \<Rightarrow> string res" where
  "renderReports reports =
     bindE (arrayOf reports) (\<lambda>rs.
     bindE (mapE recentReportBlock (zip [0..<length rs] rs)) (\<lambda>blocks.
       template [Lit ''Recently viewed reports ('', Sub (getProp reports ''length''),
                 Lit ''):\<newline>\<newline>'', Lit (joinStrings ''\<newline>\<newline>'' blocks)]))"

text \<open>
  Lines 309 to 384: the description of a report. Line 324 reads \<^verbatim>\<open>detailInfo[col]\<close> and
  tests the result's truthiness, which a member inherited from a prototype passes:
  for a key that an object does not own but \<^verbatim>\<open>Object.prototype\<close> has, and for a
  receiver that is not an object, the model stops.
\<close>

definition objectPrototypeNames :: "string list" where
  "objectPrototypeNames =
     [''constructor'', ''__defineGetter__'', ''__defineSetter__'', ''hasOwnProperty'',
      ''__lookupGetter__'', ''__lookupSetter__'', ''isPrototypeOf'', ''propertyIsEnumerable'',
      ''toString'', ''valueOf'', ''__proto__'', ''toLocaleString'']"

fun readAny :: "jsval \<Rightarrow> string \<Rightarrow> jsval res" where
  "readAny (JObj kvs) k =
     (case map_of kvs k of
        Some v \<Rightarrow> Inr v
      | None \<Rightarrow> if k \<in> set objectPrototypeNames then Inl Unmodelled else Inr JUndefined)"
| "readAny v k = Inl Unmodelled"

definition describeColumn :: "jsval \<Rightarrow> jsval \<Rightarrow> string res" where
  "describeColumn detailInfo col =
     bindE (toStr col) (\<lambda>k.
     bindE (readAny detailInfo k) (\<lambda>info.
       if truthy info then
         template [Lit ''  - '', Sub (getProp info ''label''), Lit '' ('', Sub col, Lit '') ['',
                   Sub (getProp info ''dataType''), Lit '']'']
       else template [Lit ''  - '', Sub col]))"

definition describeGrouping :: "jsval \<Rightarrow> string res" where
  "describeGrouping g =
     bindE (readProp g ''name'') (\<lambda>name.
       template [Lit ''  - '', Sub name, Lit '' (sort: '', Sub (getProp g ''sortOrder''),
                 Lit '', agg: '', Sub (orElse (getProp g ''dateGranularity'') (JStr ''none'')),
                 Lit '')''])"

text \<open>\<^verbatim>\<open>Object.entries(v)\<close> for a receiver that is not nullish.\<close>

definition objectEntries :: "jsval \<Rightarrow> (string \<times> jsval) list" where
  "objectEntries v = map (\<lambda>k. (k, getProp v k)) (objectKeys v)"

definition describeAggregate :: "string \<times> jsval \<Rightarrow> string res" where
  "describeAggregate entry =
     (let key = fst entry; info = snd entry in
      bindE (readProp info ''label'') (\<lambda>label.
        template [Lit ''  - '', Sub label, Lit '' ('', Lit key, Lit '') ['',
                  Sub (getProp info ''dataType''), Lit '']'']))"

definition describeCategory :: "jsval \<Rightarrow> string res" where
  "describeCategory cat =
     bindE (readProp cat ''label'') (\<lambda>label.
       template [Lit ''  - '', Sub label, Lit '' ('', Sub (getProp cat ''name''), Lit '')''])"

text \<open>
  A section of the description that is pushed only when \<^verbatim>\<open>xs?.length > 0\<close>: an empty
  line, the title, and one line per element of the loop over \<open>xs\<close>.
\<close>

definition describeSection ::
  "jsval \<Rightarrow> string \<Rightarrow> (jsval \<Rightarrow> string res) \<Rightarrow> string list \<Rightarrow> string list res" where
  "describeSection xs title line lines =
     bindE (gt0 (optProp xs ''length'')) (\<lambda>some.
       if some then
         bindE (iterate xs) (\<lambda>elems.
         bindE (mapE line elems) (\<lambda>ls. Inr (lines @ [[], title] @ ls)))
       else Inr lines)"

definition renderDescribe :: "jsval \<Rightarrow> string res" where
  "renderDescribe meta =
     bindE (readProp meta ''reportMetadata'') (\<lambda>rm.
     bindE (readProp rm ''name'') (\<lambda>name.
     bindE (template [Lit ''Report: '', Sub name]) (\<lambda>l1.
     bindE (template [Lit ''ID: '', Sub (getProp rm ''id'')]) (\<lambda>l2.
     bindE (template [Lit ''Format: '', Sub (getProp rm ''reportFormat'')]) (\<lambda>l3.
     bindE (template [Lit ''Report Type: '',
                      Sub (orNA (optProp (getProp rm ''reportType'') ''type''))]) (\<lambda>l4.
     bindE (template [Lit ''Description: '', Sub (orNA (getProp rm ''description''))]) (\<lambda>l5.
     bindE (describeSection (getProp rm ''detailColumns'') ''Detail Columns:''
              (describeColumn
                 (orElse (optProp (getProp meta ''reportExtendedMetadata'') ''detailColumnInfo'')
                    (JObj [])))
              [l1, l2, l3, l4, l5]) (\<lambda>lines1.
     bindE (describeSection (getProp rm ''groupingsDown'') ''Row Groupings:'' describeGrouping
              lines1) (\<lambda>lines2.
     bindE (describeSection (getProp rm ''groupingsAcross'') ''Column Groupings:'' describeGrouping
              lines2) (\<lambda>lines3.
     bindE (describeSection (getProp rm ''reportFilters'') ''Filters:'' filterLine lines3) (\<lambda>lines4.
     bindE (let aggInfo = optProp (getProp meta ''reportExtendedMetadata'') ''aggregateColumnInfo'' in
            if truthy aggInfo \<and> objectKeys aggInfo \<noteq> [] then
              bindE (mapE describeAggregate (objectEntries aggInfo)) (\<lambda>ls.
                Inr (lines4 @ [[], ''Aggregates:''] @ ls))
            else Inr lines4) (\<lambda>lines5.
     bindE (describeSection (optProp (getProp meta ''reportTypeMetadata'') ''categories'')
              ''Available Categories/Objects:'' describeCategory lines5) (\<lambda>lines6.
       Inr (joinLines lines6))))))))))))))"

text \<open>Line 459: the instance an asynchronous run returns.\<close>

definition renderAsync :: "jsval \<Rightarrow> string res" where
  "renderAsync instance =
     bindE (readProp instance ''id'') (\<lambda>id.
       template [Lit ''Report execution started asynchronously.\<newline>\<newline>Instance ID: '', Sub id,
                 Lit ''\<newline>Status: '', Sub (getProp instance ''status''),
                 Lit ''\<newline>Request Date: '', Sub (orNA (getProp instance ''requestDate'')),
                 Lit ''\<newline>\<newline>Use operation \"getInstanceResults\" with this instanceId to retrieve results once complete.''])"

text \<open>Lines 476 to 501: the instances of a report.\<close>

definition instanceBlock :: "nat \<times> jsval \<Rightarrow> string res" where
  "instanceBlock ii =
     (let index = fst ii; inst = snd ii in
      bindE (readProp inst ''id'') (\<lambda>id.
      bindE (template [Lit (showNat (index + 1)), Lit ''. Instance ID: '', Sub id]) (\<lambda>p1.
      bindE (template [Lit ''   Status: '', Sub (getProp inst ''status'')]) (\<lambda>p2.
      bindE (template [Lit ''   Request Date: '', Sub (orNA (getProp inst ''requestDate''))]) (\<lambda>p3.
      bindE (template [Lit ''   Completion Date: '', Sub (orNA (getProp inst ''completionDate''))]) (\<lambda>p4.
        Inr (joinStrings ''\<newline>'' [p1, p2, p3, p4])))))))"

definition renderInstances :: "jsval \<Rightarrow> string res" where
  "renderInstances instances =
     (if \<not> truthy instances \<or> getProp instances ''length'' = JNum 0 then
        Inr ''No async report instances found for this report.''
      else
        bindE (arrayOf instances) (\<lambda>is.
        bindE (mapE instanceBlock (zip [0..<length is] is)) (\<lambda>blocks.
          template [Lit ''Found '', Sub (getProp instances ''length''),
                    Lit '' report instance(s):\<newline>\<newline>'',
                    Lit (joinStrings ''\<newline>\<newline>'' blocks)])))"

subsection \<open>The catch block, lines 540 to 557\<close>

text \<open>\<^verbatim>\<open>error instanceof Error ? error.message : String(error)\<close>.\<close>

fun errorMessage :: "thrown \<Rightarrow> string res" where
  "errorMessage (ErrorObject m) = Inr m"
| "errorMessage (Thrown v) = toStr v"

text \<open>\<^verbatim>\<open>s.includes(t)\<close>.\<close>

definition includes_str :: "string \<Rightarrow> string \<Rightarrow> bool" where
  "includes_str s t = sublist t s"

definition enhanceError :: "string \<Rightarrow> string" where
  "enhanceError msg =
     (if includes_str msg ''INSUFFICIENT_ACCESS''
         \<or> includes_str msg ''INVALID_CROSS_REFERENCE''
      then ''Access error: '' @ msg
             @ ''\<newline>\<newline>Ensure the user has:\<newline>1. \"Run Reports\" permission\<newline>2. Access to the report's folder\<newline>3. The report ID is correct''
      else if includes_str msg ''INVALID_ID_FIELD''
              \<or> includes_str msg ''NOT_FOUND''
      then ''Report not found: '' @ msg
             @ ''\<newline>\<newline>Check that the report ID is valid and starts with \"00O\".''
      else msg)"

definition caught :: "operation \<Rightarrow> thrown \<Rightarrow> reply res" where
  "caught op t =
     bindE (errorMessage t) (\<lambda>m.
       Inr \<lparr>replyText = ''Error in report '' @ opName op @ '': '' @ enhanceError m,
            isError = True\<rparr>)"

subsection \<open>\<^verbatim>\<open>handleManageReports\<close>, lines 243 to 558\<close>

text \<open>
  The handler's result is the list of remote calls it issued and what it returns.
  \<open>Inl f\<close> in the second place says that the handler's own code raised \<open>f\<close> while it
  rendered the collaborator's answer or the thrown value: the source then answers with
  an error reply that quotes the engine's wording of the fault (or lets a fault of the
  catch block itself escape); neither text is modelled. The \<^verbatim>\<open>default\<close> arm of
  line 531 answers an operation outside the six of the declared type; \<open>operation\<close>
  has exactly those six constructors, so the arm has no counterpart here.
\<close>

definition reject :: "string \<Rightarrow> call list \<times> reply res" where
  "reject msg = ([], Inr \<lparr>replyText = msg, isError = True\<rparr>)"

definition awaitCall ::
  "connection \<Rightarrow> operation \<Rightarrow> call \<Rightarrow> (jsval \<Rightarrow> string res) \<Rightarrow> call list \<times> reply res" where
  "awaitCall conn op c render =
     ([c],
      case conn c of
        Inl t \<Rightarrow> caught op t
      | Inr v \<Rightarrow> bindE (render v) (\<lambda>txt. Inr \<lparr>replyText = txt, isError = False\<rparr>))"

definition handleManageReports :: "connection \<Rightarrow> manageReportsArgs \<Rightarrow> call list \<times> reply res" where
  "handleManageReports conn args =
     (case operation args of
        OpList \<Rightarrow>
          (case nonEmpty (queryFilter args) of
             Some q \<Rightarrow> awaitCall conn OpList (CallQuery (listSoql q (limit args))) renderQuery
           | None \<Rightarrow> awaitCall conn OpList CallReports renderReports)
      | OpDescribe \<Rightarrow>
          (case nonEmpty (reportId args) of
             None \<Rightarrow> reject ''reportId is required for describe operation''
           | Some rid \<Rightarrow> awaitCall conn OpDescribe (CallDescribe rid) renderDescribe)
      | OpExecute \<Rightarrow>
          (case nonEmpty (reportId args) of
             None \<Rightarrow> reject ''reportId is required for execute operation''
           | Some rid \<Rightarrow>
               awaitCall conn OpExecute
                 (CallExecute rid (executeOptions (includeDetails args) (filters args)))
                 (\<lambda>result. formatReportResults result (includeDetails args = Some True)))
      | OpExecuteAsync \<Rightarrow>
          (case nonEmpty (reportId args) of
             None \<Rightarrow> reject ''reportId is required for executeAsync operation''
           | Some rid \<Rightarrow>
               awaitCall conn OpExecuteAsync
                 (CallExecuteAsync rid (executeAsyncOptions (includeDetails args) (filters args)))
                 renderAsync)
      | OpGetInstances \<Rightarrow>
          (case nonEmpty (reportId args) of
             None \<Rightarrow> reject ''reportId is required for getInstances operation''
           | Some rid \<Rightarrow> awaitCall conn OpGetInstances (CallInstances rid) renderInstances)
      | OpGetInstanceResults \<Rightarrow>
          (case nonEmpty (reportId args) of
             None \<Rightarrow> reject ''reportId is required for getInstanceResults operation''
           | Some rid \<Rightarrow>
               (case nonEmpty (instanceId args) of
                  None \<Rightarrow> reject ''instanceId is required for getInstanceResults operation''
                | Some iid \<Rightarrow>
                    awaitCall conn OpGetInstanceResults (CallRetrieve rid iid)
                      (\<lambda>result. formatReportResults result (includeDetails args = Some True)))))"

subsection \<open>The collaborator's state\<close>

text \<open>
  The connection is an object with a state of its own: the organisation it talks to,
  the saved report definitions among the rest. A collaborator takes a call and the
  state the call is made in, and gives the call's outcome and the state the call
  leaves. What the collaborator does is not code of this repository, so it is a
  parameter.

  Every path of the handler awaits at most one call, and which call it is does not
  depend on any answer. So the outcome the handler sees is the collaborator's in the
  state the handler starts in, and the state the handler leaves is the one its calls
  leave, in the order of the trace. The handler has no other access to that state:
  lines 243 to 558 touch \<^verbatim>\<open>conn\<close> in the seven calls of the type \<open>call\<close> only.
\<close>

type_synonym 'w collaborator = "call \<Rightarrow> 'w \<Rightarrow> (thrown + jsval) \<times> 'w"

definition handleManageReportsIn ::
  "'w collaborator \<Rightarrow> manageReportsArgs \<Rightarrow> 'w \<Rightarrow> reply res \<times> 'w" where
  "handleManageReportsIn coll args w =
     (let run = handleManageReports (\<lambda>c. fst (coll c w)) args
      in (snd run, foldl (\<lambda>w' c. snd (coll c w')) w (fst run)))"

section \<open>Well-formed result trees\<close>

text \<open>
  The shape of a result the formatter is written for. A value is \<open>printable\<close> when no
  object in it owns a property named \<^verbatim>\<open>toString\<close>, so that every part of it converts to
  text.
\<close>

fun printable :: "jsval \<Rightarrow> bool" where
  "printable (JArr xs) = (\<forall>x \<in> set xs. printable x)"
| "printable (JObj kvs) = (''toString'' \<notin> fst ` set kvs \<and> (\<forall>p \<in> set kvs. printable (snd p)))"
| "printable v = True"

text \<open>
  A field the formatter loops over is an array whose entries satisfy \<open>P\<close>, or is
  falsy (absent, \<^verbatim>\<open>null\<close>, or an empty value).
\<close>

fun entriesOk :: "(jsval \<Rightarrow> bool) \<Rightarrow> jsval \<Rightarrow> bool" where
  "entriesOk P (JArr xs) = (\<forall>x \<in> set xs. P x)"
| "entriesOk P v = (\<not> truthy v)"

text \<open>A detail row carries an array \<^verbatim>\<open>dataCells\<close> of cells that are not \<^verbatim>\<open>null\<close>.\<close>

definition rowOk :: "jsval \<Rightarrow> bool" where
  "rowOk row =
     (\<not> nullish row
      \<and> (case getProp row ''dataCells'' of
            JArr cs \<Rightarrow> \<forall>c \<in> set cs. \<not> nullish c
          | v \<Rightarrow> False))"

text \<open>A bucket of the fact map: its aggregates and its rows, where it has them.\<close>

definition bucketOk :: "jsval \<Rightarrow> bool" where
  "bucketOk b =
     (entriesOk (\<lambda>a. \<not> nullish a) (optProp b ''aggregates'')
      \<and> entriesOk rowOk (optProp b ''rows''))"

text \<open>The fact map is an object of such buckets, or falsy.\<close>

fun factsOk :: "jsval \<Rightarrow> bool" where
  "factsOk (JObj kvs) = (\<forall>p \<in> set kvs. bucketOk (snd p))"
| "factsOk v = (\<not> truthy v)"

text \<open>
  A grouping node is an object whose \<^verbatim>\<open>groupings\<close>, where it has them, are again an
  array of grouping nodes (or falsy).
\<close>

function (sequential) nodeOk :: "jsval \<Rightarrow> bool" and forestOk :: "jsval \<Rightarrow> bool" where
  "nodeOk (JObj kvs) = (case map_of kvs ''groupings'' of None \<Rightarrow> True | Some v \<Rightarrow> forestOk v)"
| "nodeOk v = False"
| "forestOk (JArr gs) = (\<forall>g \<in> set gs. nodeOk g)"
| "forestOk v = (\<not> truthy v)"
  by pat_completeness auto
termination
proof (relation "measure (\<lambda>x. case x of Inl v \<Rightarrow> size v | Inr v \<Rightarrow> size v)", goal_cases)
  case 1
  show ?case by simp
next
  case (2 kvs v)
  have "map_of kvs k = Some v \<Longrightarrow> size v < size (JObj kvs)" for k
    by (induction kvs) (auto split: if_splits)
  with 2 show ?case by simp
next
  case (3 gs g)
  then have "size g < size (JArr gs)"
    by (induction gs) auto
  then show ?case by simp
qed

definition wellFormed :: "jsval \<Rightarrow> bool" where
  "wellFormed result =
     (\<not> nullish result \<and> printable result
      \<and> entriesOk (\<lambda>f. \<not> nullish f) (optProp (getProp result ''reportMetadata'') ''reportFilters'')
      \<and> entriesOk (\<lambda>c. True) (optProp (getProp result ''reportMetadata'') ''detailColumns'')
      \<and> factsOk (getProp result ''factMap'')
      \<and> forestOk (optProp (getProp result ''groupingsDown'') ''groupings'')
      \<and> entriesOk (\<lambda>g. True) (optProp (getProp result ''groupingsAcross'') ''groupings''))"

section \<open>Example result trees\<close>

text \<open>The trees the closed theorems below evaluate the formatter on.\<close>

definition exampleTotals :: jsval where
  "exampleTotals =
     JObj [(''factMap'', JObj [(''T!T'', JObj [(''aggregates'', JArr [JObj [(''value'', JNum 42)]])])])]"

definition exampleDetails :: jsval where
  "exampleDetails =
     JObj [(''reportMetadata'',
             JObj [(''name'', JStr ''Deals''), (''reportFormat'', JStr ''TABULAR''),
                   (''detailColumns'', JArr [JStr ''NAME'', JStr ''AMOUNT'', JStr ''STAGE''])]),
           (''factMap'',
             JObj [(''T!T'',
                    JObj [(''rows'',
                           JArr [JObj [(''dataCells'',
                                        JArr [JObj [(''label'', JStr ''Acme''), (''value'', JStr ''001'')],
                                              JObj [(''value'', JNum 7)],
                                              JObj []])]])])])]"

definition exampleChild :: jsval where
  "exampleChild = JObj [(''label'', JStr ''Q1''), (''value'', JStr ''q1''), (''key'', JStr ''0_0'')]"

definition exampleParent :: jsval where
  "exampleParent =
     JObj [(''label'', JStr ''West''), (''value'', JStr ''W''), (''key'', JStr ''0''),
           (''groupings'', JArr [exampleChild])]"

definition exampleFactMap :: jsval where
  "exampleFactMap =
     JObj [(''0!T'', JObj [(''aggregates'', JArr [JObj [(''value'', JNum 42)]])]),
           (''0_0!T'', JObj [(''aggregates'', JArr [JObj [(''label'', JStr ''$7''), (''value'', JNum 7)]])])]"

definition exampleAggregateInfo :: jsval where
  "exampleAggregateInfo = JObj [(''s!AMOUNT'', JObj [(''label'', JStr ''Sum of Amount'')])]"

definition exampleEmptyKey :: jsval where
  "exampleEmptyKey =
     JObj [(''reportExtendedMetadata'',
             JObj [(''aggregateColumnInfo'', JObj [([], JObj [(''label'', JStr ''Total'')])])]),
           (''factMap'', JObj [(''T!T'', JObj [(''aggregates'', JArr [JObj [(''value'', JNum 42)]])])])]"

definition exampleGrouped :: jsval where
  "exampleGrouped =
     JObj [(''reportMetadata'', JObj [(''name'', JStr ''Deals''), (''reportFormat'', JStr ''SUMMARY'')]),
           (''groupingsDown'', JObj [(''groupings'', JArr [exampleParent])]),
           (''factMap'', exampleFactMap)]"

definition exampleNoFacts :: jsval where
  "exampleNoFacts =
     JObj [(''reportMetadata'', JObj [(''name'', JStr ''Deals''), (''reportFormat'', JStr ''SUMMARY'')])]"


section \<open>Decimal text\<close>

lemma showNat_digit: "n < 10 \<Longrightarrow> showNat n = [digitChar n]"
  by (subst showNat.simps) simp

lemma showNat_step: "\<not> n < 10 \<Longrightarrow> showNat n = showNat (n div 10) @ [digitChar (n mod 10)]"
  by (subst showNat.simps) simp

lemma showInt_50: "showInt 50 = ''50''"
  by (simp add: showInt_def showNat_step showNat_digit digitChar_def)

lemma showInt_42: "showInt 42 = ''42''"
  by (simp add: showInt_def showNat_step showNat_digit digitChar_def)

lemma showNat_0: "showNat 0 = ''0''"
  by (simp add: showNat_digit digitChar_def)

lemma showInt_7: "showInt 7 = ''7''"
  by (simp add: showInt_def showNat_digit digitChar_def)

section \<open>Properties of the formatter\<close>

subsection \<open>Faults and loops\<close>

lemma bindE_Inr [simp]: "bindE (Inr x) f = f x"
  by (simp add: bindE_def)

lemma bindE_Inl [simp]: "bindE (Inl e) f = Inl e"
  by (simp add: bindE_def)

lemma bindE_eq_Inr: "bindE m f = Inr y \<longleftrightarrow> (\<exists>x. m = Inr x \<and> f x = Inr y)"
  by (cases m) simp_all

lemma mapE_eq_Inr:
  "mapE f xs = Inr ys \<longleftrightarrow> length ys = length xs \<and> (\<forall>i < length xs. f (xs ! i) = Inr (ys ! i))"
proof (induction xs arbitrary: ys)
  case Nil
  then show ?case by auto
next
  case (Cons x xs)
  show ?case
  proof
    assume "mapE f (x # xs) = Inr ys"
    then obtain y zs where y: "f x = Inr y" and zs: "mapE f xs = Inr zs" and ys: "ys = y # zs"
      by (auto simp: bindE_eq_Inr)
    from zs Cons.IH[of zs] have "length zs = length xs" "\<forall>i < length xs. f (xs ! i) = Inr (zs ! i)"
      by simp_all
    then show "length ys = length (x # xs) \<and> (\<forall>i < length (x # xs). f ((x # xs) ! i) = Inr (ys ! i))"
      using y ys by (auto simp: nth_Cons split: nat.splits)
  next
    assume a: "length ys = length (x # xs) \<and> (\<forall>i < length (x # xs). f ((x # xs) ! i) = Inr (ys ! i))"
    then obtain y zs where ys: "ys = y # zs" by (cases ys) auto
    from a ys have "f x = Inr y" by fastforce
    moreover from a ys have "length zs = length xs \<and> (\<forall>i < length xs. f (xs ! i) = Inr (zs ! i))"
      by fastforce
    then have "mapE f xs = Inr zs" using Cons.IH[of zs] by simp
    ultimately show "mapE f (x # xs) = Inr ys" using ys by simp
  qed
qed

lemma showInt_nat: "showInt (int n) = showNat n"
  by (simp add: showInt_def)

lemma template_2: "template [Lit a, Sub v] = Inr s \<longleftrightarrow> (\<exists>t. toStr v = Inr t \<and> s = a @ t)"
  by (auto simp: bindE_eq_Inr)

lemma template_4:
  "template [Lit a, Sub v, Lit b, Sub w] = Inr s
     \<longleftrightarrow> (\<exists>t u. toStr v = Inr t \<and> toStr w = Inr u \<and> s = a @ t @ b @ u)"
  by (auto simp: bindE_eq_Inr)

lemma elemAt_JArr: "i < length xs \<Longrightarrow> elemAt (JArr xs) i = xs ! i"
  by simp

lemma gt0_length_JArr: "gt0 (optProp (JArr xs) ''length'') = Inr (xs \<noteq> [])"
  by (simp add: gt0_def optProp_def)

lemma loopBound_length_JArr: "loopBound (getProp (JArr xs) ''length'') = Inr (length xs)"
  by (simp add: loopBound_def)

text \<open>The label and the value of an aggregate line, as values.\<close>

lemma aggregateLines_JArr:
  "aggregateLines pre ai (JArr aggs) = Inr ls \<longleftrightarrow>
     length ls = length aggs
     \<and> (\<forall>i < length aggs. \<exists>l v.
           \<not> nullish (aggs ! i)
         \<and> toStr (aggLabel ai (objectKeys ai) i) = Inr l
         \<and> toStr (coalesce (getProp (aggs ! i) ''label'')
                    (coalesce (getProp (aggs ! i) ''value'') (JStr ''N/A''))) = Inr v
         \<and> ls ! i = pre @ l @ '': '' @ v)"
  unfolding aggregateLines_def loopBound_length_JArr
  by (simp add: mapE_eq_Inr aggregateLine_def aggValue_def readProp_def bindE_eq_Inr template_4
      cong: conj_cong)
     (metis (no_types, lifting) sum.distinct(1))

subsection \<open>The accumulator of \<^verbatim>\<open>formatGroupings\<close>\<close>


lemma bindE_assoc: "bindE (bindE m f) g = bindE m (\<lambda>x. bindE (f x) g)"
  by (cases m) simp_all

lemma formatGroupings_acc_aux:
  fixes lines0 :: "string list"
  shows "formatGroupings v fm ai ci md incl ls d
           = bindE (formatGroupings v fm ai ci md incl [] d) (\<lambda>xs. Inr (ls @ xs))"
    and "formatGroupLoop gs fm ai ci md incl ls d
           = bindE (formatGroupLoop gs fm ai ci md incl [] d) (\<lambda>xs. Inr (ls @ xs))"
proof (induction v fm ai ci md incl lines0 d and gs fm ai ci md incl lines0 d
       arbitrary: ls and ls rule: formatGroupings_formatGroupLoop.induct)
  case (1 groupings factMap aggregateInfo columnInfo metadata includeDetails lines depth)
  show ?case
  proof (cases "iterate groupings")
    case (Inl e)
    then show ?thesis by (simp add: formatGroupings.simps)
  next
    case (Inr gs)
    show ?thesis using Inr 1[OF Inr, of ls] by (simp add: formatGroupings.simps)
  qed
next
  case (2 factMap aggregateInfo columnInfo metadata includeDetails lines depth)
  show ?case by simp
next
  case (3 grp rest factMap aggregateInfo columnInfo metadata includeDetails lines depth)
  show ?case
  proof (cases "groupOwnLines factMap aggregateInfo columnInfo metadata includeDetails depth grp")
    case (Inl e)
    then show ?thesis by simp
  next
    case own: (Inr own)
    show ?thesis
    proof (cases "hasSubGroupings grp")
      case (Inl e)
      then show ?thesis using own by simp
    next
      case sub: (Inr sub)
      show ?thesis
      proof (cases sub)
        case False
        have "\<And>ls. formatGroupLoop rest factMap aggregateInfo columnInfo metadata includeDetails ls depth
            = bindE (formatGroupLoop rest factMap aggregateInfo columnInfo metadata includeDetails [] depth)
                (\<lambda>xs. Inr (ls @ xs))"
          by (rule 3(2)[OF own sub]) (simp add: False)
        from this[of "ls @ own"] this[of own] show ?thesis
          using own sub False by (simp add: bindE_assoc)
      next
        case True
        have child: "\<And>ls. formatGroupings (getProp grp ''groupings'') factMap aggregateInfo columnInfo
              metadata includeDetails ls (depth + 1)
            = bindE (formatGroupings (getProp grp ''groupings'') factMap aggregateInfo columnInfo
                metadata includeDetails [] (depth + 1)) (\<lambda>xs. Inr (ls @ xs))"
          by (rule 3(1)[OF own sub True])
        show ?thesis
        proof (cases "formatGroupings (getProp grp ''groupings'') factMap aggregateInfo columnInfo
                metadata includeDetails [] (depth + 1)")
          case (Inl e)
          then show ?thesis using own sub True child[of "ls @ own"] child[of own] by simp
        next
          case (Inr kids)
          have "\<And>ls. formatGroupLoop rest factMap aggregateInfo columnInfo metadata includeDetails ls depth
              = bindE (formatGroupLoop rest factMap aggregateInfo columnInfo metadata includeDetails [] depth)
                  (\<lambda>xs. Inr (ls @ xs))"
            by (rule 3(2)[OF own sub, of "lines @ own @ kids"]) (use True child[of "lines @ own"] Inr in simp)
          from this[of "ls @ own @ kids"] this[of "own @ kids"] show ?thesis
            using own sub True child[of "ls @ own"] child[of own] Inr by (simp add: bindE_assoc)
        qed
      qed
    qed
  qed
qed

lemma formatGroupings_accD:
  "formatGroupings v fm ai ci md incl ls d = Inr out \<Longrightarrow>
     \<exists>xs. formatGroupings v fm ai ci md incl [] d = Inr xs \<and> out = ls @ xs"
  by (subst (asm) formatGroupings_acc_aux(1)) (auto simp: bindE_eq_Inr)

lemma formatGroupings_accI:
  "formatGroupings v fm ai ci md incl [] d = Inr xs \<Longrightarrow>
     formatGroupings v fm ai ci md incl ls d = Inr (ls @ xs)"
  by (subst formatGroupings_acc_aux(1)) simp

lemma formatGroupLoop_accD:
  "formatGroupLoop gs fm ai ci md incl ls d = Inr out \<Longrightarrow>
     \<exists>xs. formatGroupLoop gs fm ai ci md incl [] d = Inr xs \<and> out = ls @ xs"
  by (subst (asm) formatGroupings_acc_aux(2)) (auto simp: bindE_eq_Inr)

lemma formatGroupLoop_accI:
  "formatGroupLoop gs fm ai ci md incl [] d = Inr xs \<Longrightarrow>
     formatGroupLoop gs fm ai ci md incl ls d = Inr (ls @ xs)"
  by (subst formatGroupings_acc_aux(2)) simp

subsection \<open>The sections of the output\<close>

lemma pushDetailRows_extends:
  "pushDetailRows incl fm md ci ls = Inr out \<Longrightarrow> \<exists>xs. out = ls @ xs"
  unfolding pushDetailRows_def Let_def
  by (cases "incl \<and> truthy (optProp (getProp fm ''T!T'') ''rows'')")
     (auto simp: bindE_eq_Inr)

lemma formatReportLines_sections:
  assumes "formatReportLines result incl = Inr out"
    and "truthy (getProp result ''factMap'')"
  shows "\<exists>l1 l2 l3 l4 l5 grouped.
      pushSummary (getProp result ''reportMetadata'') [] = Inr l1
    \<and> pushCount ''Row Groupings: ''
          (orElse (optProp (getProp result ''groupingsDown'') ''groupings'') (JArr [])) l1 = Inr l2
    \<and> pushCount ''Column Groupings: ''
          (orElse (optProp (getProp result ''groupingsAcross'') ''groupings'') (JArr [])) l2 = Inr l3
    \<and> pushGrandTotals (getProp result ''factMap'')
          (orElse (optProp (getProp result ''reportExtendedMetadata'') ''aggregateColumnInfo'') (JObj []))
          l3 = Inr l4
    \<and> pushDetailRows incl (getProp result ''factMap'') (getProp result ''reportMetadata'')
          (orElse (optProp (getProp result ''reportExtendedMetadata'') ''detailColumnInfo'') (JObj []))
          l4 = Inr l5
    \<and> gt0 (getProp (orElse (optProp (getProp result ''groupingsDown'') ''groupings'') (JArr []))
              ''length'') = Inr grouped
    \<and> (if grouped then
          formatGroupings
            (orElse (optProp (getProp result ''groupingsDown'') ''groupings'') (JArr []))
            (getProp result ''factMap'')
            (orElse (optProp (getProp result ''reportExtendedMetadata'') ''aggregateColumnInfo'') (JObj []))
            (orElse (optProp (getProp result ''reportExtendedMetadata'') ''detailColumnInfo'') (JObj []))
            (getProp result ''reportMetadata'') incl (l5 @ [[], ''Grouped Results:'']) 0 = Inr out
        else out = l5)"
proof -
  have nn: "\<not> nullish result"
    using assms(1) by (cases "nullish result") (simp_all add: formatReportLines_def readProp_def)
  from assms(1) obtain l1 where l1: "pushSummary (getProp result ''reportMetadata'') [] = Inr l1"
    and r1: "bindE (pushCount ''Row Groupings: ''
          (orElse (optProp (getProp result ''groupingsDown'') ''groupings'') (JArr [])) l1) (\<lambda>lines2.
       bindE (pushCount ''Column Groupings: ''
          (orElse (optProp (getProp result ''groupingsAcross'') ''groupings'') (JArr [])) lines2) (\<lambda>lines3.
       bindE (pushGrandTotals (getProp result ''factMap'')
          (orElse (optProp (getProp result ''reportExtendedMetadata'') ''aggregateColumnInfo'') (JObj []))
          lines3) (\<lambda>lines4.
       bindE (pushDetailRows incl (getProp result ''factMap'') (getProp result ''reportMetadata'')
          (orElse (optProp (getProp result ''reportExtendedMetadata'') ''detailColumnInfo'') (JObj []))
          lines4) (\<lambda>lines5.
       bindE (gt0 (getProp (orElse (optProp (getProp result ''groupingsDown'') ''groupings'') (JArr []))
              ''length'')) (\<lambda>grouped.
         if grouped then
           formatGroupings
            (orElse (optProp (getProp result ''groupingsDown'') ''groupings'') (JArr []))
            (getProp result ''factMap'')
            (orElse (optProp (getProp result ''reportExtendedMetadata'') ''aggregateColumnInfo'') (JObj []))
            (orElse (optProp (getProp result ''reportExtendedMetadata'') ''detailColumnInfo'') (JObj []))
            (getProp result ''reportMetadata'') incl (lines5 @ [[], ''Grouped Results:'']) 0
         else Inr lines5))))) = Inr out"
    unfolding formatReportLines_def readProp_def Let_def
    using nn assms(2) by (simp add: bindE_eq_Inr) blast
  from r1 show ?thesis
    unfolding bindE_eq_Inr using l1 by (metis (full_types))
qed

subsection \<open>Grand totals\<close>

lemma pushGrandTotals_array:
  assumes "pushGrandTotals (JObj fm) ai ls = Inr out"
    and "map_of fm ''T!T'' = Some (JObj bucket)"
    and "map_of bucket ''aggregates'' = Some (JArr aggs)" and "aggs \<noteq> []"
  shows "\<exists>totals. out = ls @ [[], ''Grand Totals:''] @ totals
           \<and> aggregateLines ''  '' ai (JArr aggs) = Inr totals"
  using assms
  by (auto simp: pushGrandTotals_def Let_def gt0_length_JArr bindE_eq_Inr)

text \<open>
  \<^bold>\<open>C2\<close> (as amended). Whenever the formatter returns for a result whose fact map is an
  object with a bucket \<^verbatim>\<open>T!T\<close> that carries a non-empty array of aggregates, its lines
  hold an empty line and \<^verbatim>\<open>Grand Totals:\<close> followed by one line per aggregate,
  \<^verbatim>\<open>"  <label>: <value>"\<close>. The label of line \<open>i\<close> is the \<^verbatim>\<open>label\<close> of the entry of the
  aggregate-column info at its \<open>i\<close>-th key when that label is truthy, else the key; it is
  \<^verbatim>\<open>Aggregate <i>\<close> when there is no \<open>i\<close>-th key or the \<open>i\<close>-th key is the empty string.
  The value is the aggregate's \<^verbatim>\<open>label\<close> unless that is \<^verbatim>\<open>undefined\<close> or \<^verbatim>\<open>null\<close>, else
  its \<^verbatim>\<open>value\<close> unless that is, else \<^verbatim>\<open>N/A\<close>.
\<close>

theorem grand_totals_lines:
  assumes "formatReportLines result incl = Inr out"
    and "getProp result ''factMap'' = JObj fm"
    and "map_of fm ''T!T'' = Some (JObj bucket)"
    and "map_of bucket ''aggregates'' = Some (JArr aggs)" and "aggs \<noteq> []"
    and "ai = orElse (optProp (getProp result ''reportExtendedMetadata'') ''aggregateColumnInfo'')
                (JObj [])"
  shows "\<exists>pre totals post.
      out = pre @ [[], ''Grand Totals:''] @ totals @ post
    \<and> length totals = length aggs
    \<and> (\<forall>i < length aggs. \<exists>l v.
          toStr (if i < length (objectKeys ai) \<and> objectKeys ai ! i \<noteq> []
                 then (if truthy (optProp (getProp ai (objectKeys ai ! i)) ''label'')
                       then optProp (getProp ai (objectKeys ai ! i)) ''label''
                       else JStr (objectKeys ai ! i))
                 else JStr (''Aggregate '' @ showNat i)) = Inr l
        \<and> toStr (if \<not> nullish (getProp (aggs ! i) ''label'') then getProp (aggs ! i) ''label''
                 else if \<not> nullish (getProp (aggs ! i) ''value'') then getProp (aggs ! i) ''value''
                 else JStr ''N/A'') = Inr v
        \<and> totals ! i = ''  '' @ l @ '': '' @ v)"
proof -
  have fm: "truthy (getProp result ''factMap'')"
    using assms(2) by simp
  from formatReportLines_sections[OF assms(1) fm] obtain l3 l4 l5 grouped where
    l4: "pushGrandTotals (JObj fm) ai l3 = Inr l4"
    and l5: "pushDetailRows incl (JObj fm) (getProp result ''reportMetadata'')
          (orElse (optProp (getProp result ''reportExtendedMetadata'') ''detailColumnInfo'') (JObj []))
          l4 = Inr l5"
    and fin: "if grouped then
          formatGroupings
            (orElse (optProp (getProp result ''groupingsDown'') ''groupings'') (JArr []))
            (JObj fm) ai
            (orElse (optProp (getProp result ''reportExtendedMetadata'') ''detailColumnInfo'') (JObj []))
            (getProp result ''reportMetadata'') incl (l5 @ [[], ''Grouped Results:'']) 0 = Inr out
        else out = l5"
    unfolding assms(2) assms(6)[symmetric] by blast
  from pushGrandTotals_array[OF l4 assms(3,4,5)] obtain totals where
    t1: "l4 = l3 @ [[], ''Grand Totals:''] @ totals"
    and t2: "aggregateLines ''  '' ai (JArr aggs) = Inr totals"
    by blast
  from pushDetailRows_extends[OF l5] obtain xs where xs: "l5 = l4 @ xs"
    by blast
  obtain ys where ys: "out = l5 @ ys"
  proof (cases grouped)
    case True
    with fin show ?thesis using that by (auto dest: formatGroupings_accD)
  next
    case False
    with fin show ?thesis using that[of "[]"] by simp
  qed
  have out: "out = l3 @ [[], ''Grand Totals:''] @ totals @ (xs @ ys)"
    using t1 xs ys by simp
  from t2 have len: "length totals = length aggs"
    and each: "\<forall>i < length aggs. \<exists>l v.
           \<not> nullish (aggs ! i)
         \<and> toStr (aggLabel ai (objectKeys ai) i) = Inr l
         \<and> toStr (coalesce (getProp (aggs ! i) ''label'')
                    (coalesce (getProp (aggs ! i) ''value'') (JStr ''N/A''))) = Inr v
         \<and> totals ! i = ''  '' @ l @ '': '' @ v"
    unfolding aggregateLines_JArr by blast+
  have "\<forall>i < length aggs. \<exists>l v.
          toStr (if i < length (objectKeys ai) \<and> objectKeys ai ! i \<noteq> []
                 then (if truthy (optProp (getProp ai (objectKeys ai ! i)) ''label'')
                       then optProp (getProp ai (objectKeys ai ! i)) ''label''
                       else JStr (objectKeys ai ! i))
                 else JStr (''Aggregate '' @ showNat i)) = Inr l
        \<and> toStr (if \<not> nullish (getProp (aggs ! i) ''label'') then getProp (aggs ! i) ''label''
                 else if \<not> nullish (getProp (aggs ! i) ''value'') then getProp (aggs ! i) ''value''
                 else JStr ''N/A'') = Inr v
        \<and> totals ! i = ''  '' @ l @ '': '' @ v"
  proof (intro allI impI)
    fix i assume "i < length aggs"
    with each obtain l v where
      l: "toStr (aggLabel ai (objectKeys ai) i) = Inr l"
      and v: "toStr (coalesce (getProp (aggs ! i) ''label'')
                    (coalesce (getProp (aggs ! i) ''value'') (JStr ''N/A''))) = Inr v"
      and t: "totals ! i = ''  '' @ l @ '': '' @ v"
      by blast
    have "aggLabel ai (objectKeys ai) i =
        (if i < length (objectKeys ai) \<and> objectKeys ai ! i \<noteq> []
                 then (if truthy (optProp (getProp ai (objectKeys ai ! i)) ''label'')
                       then optProp (getProp ai (objectKeys ai ! i)) ''label''
                       else JStr (objectKeys ai ! i))
                 else JStr (''Aggregate '' @ showNat i))"
      by (simp add: aggLabel_def orElse_def)
    moreover have "coalesce (getProp (aggs ! i) ''label'')
                    (coalesce (getProp (aggs ! i) ''value'') (JStr ''N/A''))
        = (if \<not> nullish (getProp (aggs ! i) ''label'') then getProp (aggs ! i) ''label''
                 else if \<not> nullish (getProp (aggs ! i) ''value'') then getProp (aggs ! i) ''value''
                 else JStr ''N/A'')"
      by (simp add: coalesce_def)
    ultimately show "\<exists>l v.
          toStr (if i < length (objectKeys ai) \<and> objectKeys ai ! i \<noteq> []
                 then (if truthy (optProp (getProp ai (objectKeys ai ! i)) ''label'')
                       then optProp (getProp ai (objectKeys ai ! i)) ''label''
                       else JStr (objectKeys ai ! i))
                 else JStr (''Aggregate '' @ showNat i)) = Inr l
        \<and> toStr (if \<not> nullish (getProp (aggs ! i) ''label'') then getProp (aggs ! i) ''label''
                 else if \<not> nullish (getProp (aggs ! i) ''value'') then getProp (aggs ! i) ''value''
                 else JStr ''N/A'') = Inr v
        \<and> totals ! i = ''  '' @ l @ '': '' @ v"
      using l v t by auto
  qed
  with out len show ?thesis by blast
qed

theorem grand_totals_lines_witness:
  "formatReportLines exampleTotals False = Inr [[], ''Grand Totals:'', ''  Aggregate 0: 42'']
   \<and> (\<exists>pre totals post.
         [[], ''Grand Totals:'', ''  Aggregate 0: 42''] = pre @ [[], ''Grand Totals:''] @ totals @ post
       \<and> length totals = 1 \<and> totals ! 0 = ''  Aggregate 0: 42'')"
proof -
  have run: "formatReportLines exampleTotals False = Inr [[], ''Grand Totals:'', ''  Aggregate 0: 42'']"
    by code_simp
  have fm: "getProp exampleTotals ''factMap''
      = JObj [(''T!T'', JObj [(''aggregates'', JArr [JObj [(''value'', JNum 42)]])])]"
    by (simp add: exampleTotals_def)
  have ai: "JObj [] = orElse (optProp (getProp exampleTotals ''reportExtendedMetadata'')
      ''aggregateColumnInfo'') (JObj [])"
    by (simp add: exampleTotals_def orElse_def optProp_def)
  from grand_totals_lines[OF run fm _ _ _ ai,
      of "[(''aggregates'', JArr [JObj [(''value'', JNum 42)]])]" "[JObj [(''value'', JNum 42)]]"]
  obtain pre totals post where
    shape: "[[], ''Grand Totals:'', ''  Aggregate 0: 42''] = pre @ [[], ''Grand Totals:''] @ totals @ post"
    and len: "length totals = 1"
    and line: "\<exists>l v. toStr (JStr (''Aggregate '' @ showNat 0)) = Inr l
                  \<and> toStr (JNum 42) = Inr v \<and> totals ! 0 = ''  '' @ l @ '': '' @ v"
    by auto
  from line have "totals ! 0 = ''  Aggregate 0: 42''"
    by (auto simp: showNat_0 showInt_42)
  with run shape len show ?thesis by blast
qed

text \<open>
  The claim as stated fails where truthiness and presence part: the aggregate-column
  info below has a key at position 0 (the empty string) whose entry has the label
  \<^verbatim>\<open>Total\<close>, and line 153 labels the aggregate \<^verbatim>\<open>Aggregate 0\<close>.
\<close>

theorem grand_totals_lines_counterexample:
  "objectKeys (JObj [([], JObj [(''label'', JStr ''Total'')])]) = [[]]
   \<and> getProp (getProp (JObj [([], JObj [(''label'', JStr ''Total'')])]) []) ''label'' = JStr ''Total''
   \<and> formatReportLines exampleEmptyKey False
       = Inr [[], ''Grand Totals:'', ''  Aggregate 0: 42'']"
  by code_simp

subsection \<open>Detail rows\<close>

lemma joinWith_item:
  "joinWith sep [x] = itemText x"
  "joinWith sep (x # y # ys)
     = bindE (itemText x) (\<lambda>s. bindE (joinWith sep (y # ys)) (\<lambda>t. Inr (s @ sep @ t)))"
  by (simp_all add: itemText_def bindE_def)

lemma itemText_plain: "\<not> nullish x \<Longrightarrow> itemText x = toStr x"
  by (simp add: itemText_def)

lemma joinWith_mapE:
  "joinWith sep xs = bindE (mapE itemText xs) (\<lambda>ts. Inr (joinStrings sep ts))"
proof (induction xs rule: induct_list012)
  case 1
  show ?case by simp
next
  case (2 x)
  show ?case by (cases "itemText x") (simp_all add: joinWith_item del: joinWith.simps)
next
  case (3 x y zs)
  show ?case
  proof (cases "itemText x")
    case (Inl e)
    then show ?thesis by (simp add: joinWith_item del: joinWith.simps)
  next
    case x: (Inr s)
    show ?thesis
    proof (cases "itemText y")
      case (Inl e)
      then show ?thesis using x 3(2) by (simp add: joinWith_item del: joinWith.simps)
    next
      case y: (Inr t)
      show ?thesis
      proof (cases "mapE itemText zs")
        case (Inl e)
        then show ?thesis using x y 3(2) by (simp add: joinWith_item del: joinWith.simps)
      next
        case (Inr ts)
        then show ?thesis using x y 3(2) by (simp add: joinWith_item del: joinWith.simps)
      qed
    qed
  qed
qed

lemma joinWith_eq:
  "joinWith sep xs = Inr s \<longleftrightarrow>
     (\<exists>ts. length ts = length xs
        \<and> (\<forall>k < length xs. itemText (xs ! k) = Inr (ts ! k))
        \<and> s = joinStrings sep ts)"
  unfolding joinWith_mapE bindE_eq_Inr mapE_eq_Inr by auto

lemma cellValue_eq:
  "cellValue c = Inr v \<longleftrightarrow>
     \<not> nullish c
     \<and> v = (if \<not> nullish (getProp c ''label'') then getProp c ''label''
            else if \<not> nullish (getProp c ''value'') then getProp c ''value''
            else JStr [])"
  by (auto simp: cellValue_def readProp_def coalesce_def)

lemma cellValue_not_nullish: "cellValue c = Inr v \<Longrightarrow> \<not> nullish v"
  by (auto simp: cellValue_eq)

lemma detailRowLine_eq:
  "detailRowLine row = Inr line \<longleftrightarrow>
     (\<exists>cells texts.
        \<not> nullish row \<and> getProp row ''dataCells'' = JArr cells
      \<and> length texts = length cells
      \<and> (\<forall>k < length cells.
            \<not> nullish (cells ! k)
          \<and> toStr (if \<not> nullish (getProp (cells ! k) ''label'') then getProp (cells ! k) ''label''
                   else if \<not> nullish (getProp (cells ! k) ''value'') then getProp (cells ! k) ''value''
                   else JStr []) = Inr (texts ! k))
      \<and> line = ''  | '' @ joinStrings '' | '' texts @ '' |'')"
proof
  assume "detailRowLine row = Inr line"
  then obtain cells vals joined where nn: "\<not> nullish row"
    and cells: "getProp row ''dataCells'' = JArr cells"
    and vals: "mapE cellValue cells = Inr vals"
    and joined: "joinWith '' | '' vals = Inr joined"
    and line: "line = ''  | '' @ joined @ '' |''"
    unfolding detailRowLine_def readProp_def
    by (cases "nullish row"; cases "getProp row ''dataCells''")
       (auto simp: bindE_eq_Inr)
  from vals have vlen: "length vals = length cells"
    and veach: "\<forall>k < length cells. cellValue (cells ! k) = Inr (vals ! k)"
    by (simp_all add: mapE_eq_Inr)
  from joined obtain texts where tlen: "length texts = length vals"
    and teach: "\<forall>k < length vals. itemText (vals ! k) = Inr (texts ! k)"
    and j: "joined = joinStrings '' | '' texts"
    unfolding joinWith_eq by blast
  have "\<forall>k < length cells.
            \<not> nullish (cells ! k)
          \<and> toStr (if \<not> nullish (getProp (cells ! k) ''label'') then getProp (cells ! k) ''label''
                   else if \<not> nullish (getProp (cells ! k) ''value'') then getProp (cells ! k) ''value''
                   else JStr []) = Inr (texts ! k)"
  proof (intro allI impI)
    fix k assume k: "k < length cells"
    with veach have cv: "cellValue (cells ! k) = Inr (vals ! k)" by blast
    from cellValue_not_nullish[OF cv] teach k vlen have "toStr (vals ! k) = Inr (texts ! k)"
      by (auto simp: itemText_def)
    with cv show "\<not> nullish (cells ! k)
          \<and> toStr (if \<not> nullish (getProp (cells ! k) ''label'') then getProp (cells ! k) ''label''
                   else if \<not> nullish (getProp (cells ! k) ''value'') then getProp (cells ! k) ''value''
                   else JStr []) = Inr (texts ! k)"
      unfolding cellValue_eq by auto
  qed
  with nn cells tlen vlen line j show "\<exists>cells texts.
        \<not> nullish row \<and> getProp row ''dataCells'' = JArr cells
      \<and> length texts = length cells
      \<and> (\<forall>k < length cells.
            \<not> nullish (cells ! k)
          \<and> toStr (if \<not> nullish (getProp (cells ! k) ''label'') then getProp (cells ! k) ''label''
                   else if \<not> nullish (getProp (cells ! k) ''value'') then getProp (cells ! k) ''value''
                   else JStr []) = Inr (texts ! k))
      \<and> line = ''  | '' @ joinStrings '' | '' texts @ '' |''"
    by auto
next
  assume "\<exists>cells texts.
        \<not> nullish row \<and> getProp row ''dataCells'' = JArr cells
      \<and> length texts = length cells
      \<and> (\<forall>k < length cells.
            \<not> nullish (cells ! k)
          \<and> toStr (if \<not> nullish (getProp (cells ! k) ''label'') then getProp (cells ! k) ''label''
                   else if \<not> nullish (getProp (cells ! k) ''value'') then getProp (cells ! k) ''value''
                   else JStr []) = Inr (texts ! k))
      \<and> line = ''  | '' @ joinStrings '' | '' texts @ '' |''"
  then obtain cells texts where nn: "\<not> nullish row"
    and cells: "getProp row ''dataCells'' = JArr cells"
    and tlen: "length texts = length cells"
    and each: "\<forall>k < length cells.
            \<not> nullish (cells ! k)
          \<and> toStr (if \<not> nullish (getProp (cells ! k) ''label'') then getProp (cells ! k) ''label''
                   else if \<not> nullish (getProp (cells ! k) ''value'') then getProp (cells ! k) ''value''
                   else JStr []) = Inr (texts ! k)"
    and line: "line = ''  | '' @ joinStrings '' | '' texts @ '' |''"
    by blast
  define vals where "vals = map (\<lambda>c. if \<not> nullish (getProp c ''label'') then getProp c ''label''
                   else if \<not> nullish (getProp c ''value'') then getProp c ''value''
                   else JStr []) cells"
  have "mapE cellValue cells = Inr vals"
    unfolding mapE_eq_Inr vals_def using each by (simp add: cellValue_eq)
  moreover have "joinWith '' | '' vals = Inr (joinStrings '' | '' texts)"
    unfolding joinWith_eq
  proof (intro exI[of _ texts] conjI allI impI)
    show "length texts = length vals" using tlen by (simp add: vals_def)
    fix k assume "k < length vals"
    then have k: "k < length cells" by (simp add: vals_def)
    with each show "itemText (vals ! k) = Inr (texts ! k)"
      by (auto simp: vals_def itemText_def)
  qed simp
  ultimately show "detailRowLine row = Inr line"
    using nn cells line by (simp add: detailRowLine_def readProp_def)
qed

lemma template_3_num:
  "template [Lit a, Sub (JNum (int n)), Lit b] = Inr (a @ showNat n @ b)"
  by (simp add: showInt_nat)

lemma pushDetailRows_array:
  assumes "pushDetailRows True (JObj fm) md ci ls = Inr out"
    and "map_of fm ''T!T'' = Some (JObj bucket)"
    and "map_of bucket ''rows'' = Some (JArr rows)"
  shows "\<exists>header body dcs.
      out = ls @ [[], ''Detail Rows ('' @ showNat (length rows) @ ''):''] @ header @ body
    \<and> arrayOf (orElse (optProp md ''detailColumns'') (JArr [])) = Inr dcs
    \<and> length header = (if dcs = [] then 0 else 2)
    \<and> mapE detailRowLine rows = Inr body"
proof -
  have rows: "getProp (getProp (JObj fm) ''T!T'') ''rows'' = JArr rows"
    and tr: "truthy (optProp (getProp (JObj fm) ''T!T'') ''rows'')"
    using assms(2,3) by (simp_all add: optProp_def)
  from assms(1) obtain dcs hls header body where
    dcs: "arrayOf (orElse (optProp md ''detailColumns'') (JArr [])) = Inr dcs"
    and hls: "mapE (headerLabel ci) dcs = Inr hls"
    and header: "(if hls \<noteq> [] then
                  bindE (joinWith '' | '' hls) (\<lambda>h.
                  bindE (joinWith '' | '' (map (\<lambda>l. JStr ''---'') hls)) (\<lambda>d.
                    Inr [''  | '' @ h @ '' |'', ''  | '' @ d @ '' |'']))
                else Inr []) = Inr header"
    and body: "mapE detailRowLine rows = Inr body"
    and out: "out = ls @ [[], ''Detail Rows ('' @ showNat (length rows) @ ''):''] @ header @ body"
    unfolding pushDetailRows_def Let_def rows
    using tr by (simp add: bindE_eq_Inr showInt_nat) blast
  from hls have "length hls = length dcs" by (simp add: mapE_eq_Inr)
  then have "(hls = []) = (dcs = [])" by auto
  with header have "length header = (if dcs = [] then 0 else 2)"
    by (cases "dcs = []") (auto simp: bindE_eq_Inr)
  with dcs body out show ?thesis by blast
qed

text \<open>
  \<^bold>\<open>C4\<close> (as amended). With \<^verbatim>\<open>includeDetails\<close> true and a bucket \<^verbatim>\<open>T!T\<close> that carries an
  array of rows, whenever the formatter returns, its lines hold an empty line, the
  title \<^verbatim>\<open>Detail Rows (<n>):\<close>, the two header lines when there are detail columns,
  and then one line per row, \<^verbatim>\<open>"  | <cell> | ... | <cell> |"\<close>, where each cell is the
  cell's \<^verbatim>\<open>label\<close> unless that is \<^verbatim>\<open>undefined\<close> or \<^verbatim>\<open>null\<close>, else its \<^verbatim>\<open>value\<close> unless that
  is, else the empty string.
\<close>

theorem detail_cells_fallback:
  assumes "formatReportLines result True = Inr out"
    and "getProp result ''factMap'' = JObj fm"
    and "map_of fm ''T!T'' = Some (JObj bucket)"
    and "map_of bucket ''rows'' = Some (JArr rows)"
  shows "\<exists>pre header body post dcs.
      out = pre @ [[], ''Detail Rows ('' @ showNat (length rows) @ ''):''] @ header @ body @ post
    \<and> arrayOf (orElse (optProp (getProp result ''reportMetadata'') ''detailColumns'') (JArr [])) = Inr dcs
    \<and> length header = (if dcs = [] then 0 else 2)
    \<and> length body = length rows
    \<and> (\<forall>j < length rows. \<exists>cells texts.
          getProp (rows ! j) ''dataCells'' = JArr cells
        \<and> length texts = length cells
        \<and> (\<forall>k < length cells.
              toStr (if \<not> nullish (getProp (cells ! k) ''label'') then getProp (cells ! k) ''label''
                     else if \<not> nullish (getProp (cells ! k) ''value'') then getProp (cells ! k) ''value''
                     else JStr []) = Inr (texts ! k))
        \<and> body ! j = ''  | '' @ joinStrings '' | '' texts @ '' |'')"
proof -
  have fm: "truthy (getProp result ''factMap'')"
    using assms(2) by simp
  from formatReportLines_sections[OF assms(1) fm] obtain l4 l5 grouped where
    l5: "pushDetailRows True (JObj fm) (getProp result ''reportMetadata'')
          (orElse (optProp (getProp result ''reportExtendedMetadata'') ''detailColumnInfo'') (JObj []))
          l4 = Inr l5"
    and fin: "if grouped then
          formatGroupings
            (orElse (optProp (getProp result ''groupingsDown'') ''groupings'') (JArr []))
            (JObj fm)
            (orElse (optProp (getProp result ''reportExtendedMetadata'') ''aggregateColumnInfo'') (JObj []))
            (orElse (optProp (getProp result ''reportExtendedMetadata'') ''detailColumnInfo'') (JObj []))
            (getProp result ''reportMetadata'') True (l5 @ [[], ''Grouped Results:'']) 0 = Inr out
        else out = l5"
    unfolding assms(2) by blast
  from pushDetailRows_array[OF l5 assms(3,4)] obtain header body dcs where
    b1: "l5 = l4 @ [[], ''Detail Rows ('' @ showNat (length rows) @ ''):''] @ header @ body"
    and b2: "arrayOf (orElse (optProp (getProp result ''reportMetadata'') ''detailColumns'') (JArr [])) = Inr dcs"
    and b3: "length header = (if dcs = [] then 0 else 2)"
    and b4: "mapE detailRowLine rows = Inr body"
    by blast
  obtain ys where ys: "out = l5 @ ys"
  proof (cases grouped)
    case True
    with fin show ?thesis using that by (auto dest: formatGroupings_accD)
  next
    case False
    with fin show ?thesis using that[of "[]"] by simp
  qed
  have out: "out = l4 @ [[], ''Detail Rows ('' @ showNat (length rows) @ ''):''] @ header @ body @ ys"
    using b1 ys by simp
  from b4 have len: "length body = length rows"
    and each: "\<forall>j < length rows. detailRowLine (rows ! j) = Inr (body ! j)"
    by (simp_all add: mapE_eq_Inr)
  have "\<forall>j < length rows. \<exists>cells texts.
          getProp (rows ! j) ''dataCells'' = JArr cells
        \<and> length texts = length cells
        \<and> (\<forall>k < length cells.
              toStr (if \<not> nullish (getProp (cells ! k) ''label'') then getProp (cells ! k) ''label''
                     else if \<not> nullish (getProp (cells ! k) ''value'') then getProp (cells ! k) ''value''
                     else JStr []) = Inr (texts ! k))
        \<and> body ! j = ''  | '' @ joinStrings '' | '' texts @ '' |''"
  proof (intro allI impI)
    fix j assume "j < length rows"
    with each have "detailRowLine (rows ! j) = Inr (body ! j)" by blast
    then show "\<exists>cells texts.
          getProp (rows ! j) ''dataCells'' = JArr cells
        \<and> length texts = length cells
        \<and> (\<forall>k < length cells.
              toStr (if \<not> nullish (getProp (cells ! k) ''label'') then getProp (cells ! k) ''label''
                     else if \<not> nullish (getProp (cells ! k) ''value'') then getProp (cells ! k) ''value''
                     else JStr []) = Inr (texts ! k))
        \<and> body ! j = ''  | '' @ joinStrings '' | '' texts @ '' |''"
      unfolding detailRowLine_eq by blast
  qed
  with out b2 b3 len show ?thesis by blast
qed

lemma list3: "length xs = 3 \<Longrightarrow> xs = [xs ! 0, xs ! 1, xs ! 2]"
  by (cases xs; cases "tl xs"; cases "tl (tl xs)") auto

theorem detail_cells_fallback_witness:
  "formatReportLines exampleDetails True
     = Inr [''Report: Deals'', ''Format: TABULAR'', [], [], ''Detail Rows (1):'',
            ''  | NAME | AMOUNT | STAGE |'', ''  | --- | --- | --- |'', ''  | Acme | 7 |  |'']
   \<and> (\<exists>pre header body post.
         [''Report: Deals'', ''Format: TABULAR'', [], [], ''Detail Rows (1):'',
          ''  | NAME | AMOUNT | STAGE |'', ''  | --- | --- | --- |'', ''  | Acme | 7 |  |'']
           = pre @ [[], ''Detail Rows (1):''] @ header @ body @ post
       \<and> length header = 2 \<and> body = [''  | Acme | 7 |  |''])"
proof -
  have run: "formatReportLines exampleDetails True
     = Inr [''Report: Deals'', ''Format: TABULAR'', [], [], ''Detail Rows (1):'',
            ''  | NAME | AMOUNT | STAGE |'', ''  | --- | --- | --- |'', ''  | Acme | 7 |  |'']"
    by code_simp
  have fm: "getProp exampleDetails ''factMap''
      = JObj [(''T!T'',
                    JObj [(''rows'',
                           JArr [JObj [(''dataCells'',
                                        JArr [JObj [(''label'', JStr ''Acme''), (''value'', JStr ''001'')],
                                              JObj [(''value'', JNum 7)],
                                              JObj []])]])])]"
    by (simp add: exampleDetails_def)
  have dcs: "arrayOf (orElse (optProp (getProp exampleDetails ''reportMetadata'') ''detailColumns'') (JArr []))
      = Inr [JStr ''NAME'', JStr ''AMOUNT'', JStr ''STAGE'']"
    by (simp add: exampleDetails_def orElse_def optProp_def)
  let ?cells = "[JObj [(''label'', JStr ''Acme''), (''value'', JStr ''001'')],
                 JObj [(''value'', JNum 7)], JObj []]"
  let ?rows = "[JObj [(''dataCells'', JArr ?cells)]]"
  let ?out = "[''Report: Deals'', ''Format: TABULAR'', [], [], ''Detail Rows (1):'',
          ''  | NAME | AMOUNT | STAGE |'', ''  | --- | --- | --- |'', ''  | Acme | 7 |  |'']"
  have b: "map_of [(''T!T'', JObj [(''rows'', JArr ?rows)])] ''T!T'' = Some (JObj [(''rows'', JArr ?rows)])"
    and r: "map_of [(''rows'', JArr ?rows)] ''rows'' = Some (JArr ?rows)"
    by simp_all
  from detail_cells_fallback[OF run fm b r]
  obtain pre header body post dcs' where
    shape: "?out = pre @ [[], ''Detail Rows ('' @ showNat (length ?rows) @ ''):''] @ header @ body @ post"
    and dcs': "arrayOf (orElse (optProp (getProp exampleDetails ''reportMetadata'') ''detailColumns'')
                 (JArr [])) = Inr dcs'"
    and header: "length header = (if dcs' = [] then 0 else 2)"
    and len: "length body = length ?rows"
    and each: "\<forall>j < length ?rows. \<exists>cells texts.
          getProp (?rows ! j) ''dataCells'' = JArr cells
        \<and> length texts = length cells
        \<and> (\<forall>k < length cells.
              toStr (if \<not> nullish (getProp (cells ! k) ''label'') then getProp (cells ! k) ''label''
                     else if \<not> nullish (getProp (cells ! k) ''value'') then getProp (cells ! k) ''value''
                     else JStr []) = Inr (texts ! k))
        \<and> body ! j = ''  | '' @ joinStrings '' | '' texts @ '' |''"
    by blast
  have "0 < length ?rows" by simp
  from each[rule_format, OF this] obtain cells texts where
    c: "getProp (?rows ! 0) ''dataCells'' = JArr cells"
    and tl: "length texts = length cells"
    and tk: "\<forall>k < length cells.
              toStr (if \<not> nullish (getProp (cells ! k) ''label'') then getProp (cells ! k) ''label''
                     else if \<not> nullish (getProp (cells ! k) ''value'') then getProp (cells ! k) ''value''
                     else JStr []) = Inr (texts ! k)"
    and line: "body ! 0 = ''  | '' @ joinStrings '' | '' texts @ '' |''"
    by blast
  from c have cells: "cells = ?cells" by simp
  from tl have tlen: "length texts = 3" unfolding cells by simp
  from tk have texts: "\<forall>k < 3. toStr (if \<not> nullish (getProp (?cells ! k) ''label'') then getProp (?cells ! k) ''label''
                     else if \<not> nullish (getProp (?cells ! k) ''value'') then getProp (?cells ! k) ''value''
                     else JStr []) = Inr (texts ! k)"
    unfolding cells by simp
  from texts[rule_format, of 0] texts[rule_format, of 1] texts[rule_format, of 2]
  have "texts ! 0 = ''Acme''" "texts ! 1 = ''7''" "texts ! 2 = []"
    by (simp_all add: showInt_7)
  with list3[OF tlen] have "texts = [''Acme'', ''7'', []]" by simp
  with line have "body ! 0 = ''  | Acme | 7 |  |''" by simp
  moreover from len have "body = [body ! 0]" by (cases body) auto
  ultimately have body: "body = [''  | Acme | 7 |  |'']" by simp
  from dcs dcs' header have h2: "length header = 2" by simp
  from shape have "?out = pre @ [[], ''Detail Rows (1):''] @ header @ body @ post"
    by (simp add: showNat_digit digitChar_def)
  with run h2 body show ?thesis by blast
qed

text \<open>
  The claim as stated fails: a cell with neither a label nor a value is rendered as
  the empty string (line 177), not as \<^verbatim>\<open>N/A\<close>.
\<close>

theorem detail_cells_fallback_counterexample:
  "formatReportLines
     (JObj [(''factMap'', JObj [(''T!T'', JObj [(''rows'', JArr [JObj [(''dataCells'', JArr [JObj []])]])])])])
     True
   = Inr [[], ''Detail Rows (1):'', ''  |  |'']"
  by code_simp

subsection \<open>Groupings\<close>

lemma indentOf_replicate: "indentOf d = replicate (2 * (d + 1)) CHR '' ''"
proof (induction d)
  case 0
  show ?case by (simp add: indentOf_def numeral_2_eq_2)
next
  case (Suc d)
  have "indentOf (Suc d) = ''  '' @ indentOf d"
    by (simp add: indentOf_def)
  also have "\<dots> = replicate 2 CHR '' '' @ replicate (2 * (d + 1)) CHR '' ''"
    using Suc by (simp add: numeral_2_eq_2)
  also have "\<dots> = replicate (2 * (Suc d + 1)) CHR '' ''"
    by (simp add: replicate_add[symmetric] del: replicate.simps)
  finally show ?case .
qed

lemma formatGroupLoop_Cons:
  assumes "formatGroupLoop (g # rest) fm ai ci md incl [] d = Inr out"
  shows "\<exists>own sub kids more.
      groupOwnLines fm ai ci md incl d g = Inr own
    \<and> hasSubGroupings g = Inr sub
    \<and> (if sub then formatGroupings (getProp g ''groupings'') fm ai ci md incl [] (Suc d) = Inr kids
        else kids = [])
    \<and> formatGroupLoop rest fm ai ci md incl [] d = Inr more
    \<and> out = own @ kids @ more"
proof -
  from assms obtain own sub ls where own: "groupOwnLines fm ai ci md incl d g = Inr own"
    and sub: "hasSubGroupings g = Inr sub"
    and ls: "(if sub then formatGroupings (getProp g ''groupings'') fm ai ci md incl own (Suc d)
              else Inr own) = Inr ls"
    and rest: "formatGroupLoop rest fm ai ci md incl ls d = Inr out"
    by (auto split: sum.splits cong: if_cong)
  from formatGroupLoop_accD[OF rest] obtain more where
    more: "formatGroupLoop rest fm ai ci md incl [] d = Inr more" and out: "out = ls @ more"
    by blast
  show ?thesis
  proof (cases sub)
    case True
    with ls formatGroupings_accD[of "getProp g ''groupings''" fm ai ci md incl own "Suc d" ls]
    obtain kids where "formatGroupings (getProp g ''groupings'') fm ai ci md incl [] (Suc d) = Inr kids"
      and "ls = own @ kids"
      by auto
    with own sub True more out show ?thesis by auto
  next
    case False
    with ls have "ls = own" by simp
    with own sub False more out show ?thesis by auto
  qed
qed

lemma formatGroupLoop_member:
  assumes "formatGroupLoop gs fm ai ci md incl [] d = Inr out" and "g \<in> set gs"
  shows "\<exists>pre own sub kids post.
      out = pre @ own @ kids @ post
    \<and> groupOwnLines fm ai ci md incl d g = Inr own
    \<and> hasSubGroupings g = Inr sub
    \<and> (if sub then formatGroupings (getProp g ''groupings'') fm ai ci md incl [] (Suc d) = Inr kids
        else kids = [])"
  using assms
proof (induction gs arbitrary: out)
  case Nil
  then show ?case by simp
next
  case (Cons x xs)
  from formatGroupLoop_Cons[OF Cons.prems(1)] obtain own sub kids more where
    own: "groupOwnLines fm ai ci md incl d x = Inr own"
    and sub: "hasSubGroupings x = Inr sub"
    and kids: "if sub then formatGroupings (getProp x ''groupings'') fm ai ci md incl [] (Suc d) = Inr kids
        else kids = []"
    and more: "formatGroupLoop xs fm ai ci md incl [] d = Inr more"
    and out: "out = own @ kids @ more"
    by blast
  show ?case
  proof (cases "g = x")
    case True
    have "out = [] @ own @ kids @ more" using out by simp
    with own sub kids True show ?thesis by blast
  next
    case False
    with Cons.prems(2) have "g \<in> set xs" by simp
    from Cons.IH[OF more this] obtain pre own' sub' kids' post where
      m: "more = pre @ own' @ kids' @ post"
      and o: "groupOwnLines fm ai ci md incl d g = Inr own'"
      and s: "hasSubGroupings g = Inr sub'"
      and k: "if sub' then formatGroupings (getProp g ''groupings'') fm ai ci md incl [] (Suc d) = Inr kids'
        else kids' = []"
      by blast
    have "out = (own @ kids @ pre) @ own' @ kids' @ post" using out m by simp
    with o s k show ?thesis by blast
  qed
qed

lemma groupAt_rendered:
  assumes "groupAt groupings d g e"
    and "formatGroupings groupings fm ai ci md incl [] d = Inr out"
  shows "\<exists>pre own sub kids post.
      out = pre @ own @ kids @ post
    \<and> groupOwnLines fm ai ci md incl e g = Inr own
    \<and> hasSubGroupings g = Inr sub
    \<and> (if sub then formatGroupings (getProp g ''groupings'') fm ai ci md incl [] (Suc e) = Inr kids
        else kids = [])"
  using assms
proof (induction arbitrary: out rule: groupAt.induct)
  case (here groupings gs g d)
  then have "formatGroupLoop gs fm ai ci md incl [] d = Inr out"
    by (simp add: formatGroupings.simps)
  from formatGroupLoop_member[OF this here(2)] show ?case .
next
  case (below groupings gs p d g e)
  then have "formatGroupLoop gs fm ai ci md incl [] d = Inr out"
    by (simp add: formatGroupings.simps)
  from formatGroupLoop_member[OF this below(2)] below(3) obtain pre own kids post where
    out: "out = pre @ own @ kids @ post"
    and kids: "formatGroupings (getProp p ''groupings'') fm ai ci md incl [] (Suc d) = Inr kids"
    by auto
  from below.IH[OF kids] obtain pre' own' sub' kids' post' where
    k: "kids = pre' @ own' @ kids' @ post'"
    and o: "groupOwnLines fm ai ci md incl e g = Inr own'"
    and s: "hasSubGroupings g = Inr sub'"
    and c: "if sub' then formatGroupings (getProp g ''groupings'') fm ai ci md incl [] (Suc e) = Inr kids'
        else kids' = []"
    by blast
  have "out = (pre @ own @ pre') @ own' @ kids' @ (post' @ post)" using out k by simp
  with o s c show ?case by blast
qed

lemma template_header:
  "template [Lit a, Sub x, Lit b, Sub y, Lit c] = Inr s
     \<longleftrightarrow> (\<exists>l v. toStr x = Inr l \<and> toStr y = Inr v \<and> s = a @ l @ b @ v @ c)"
  by (auto simp: bindE_eq_Inr)

lemma groupHeader_eq:
  "groupHeader g e = Inr h \<longleftrightarrow>
     (\<exists>l v. \<not> nullish g \<and> toStr (getProp g ''label'') = Inr l \<and> toStr (getProp g ''value'') = Inr v
        \<and> h = replicate (2 * (e + 1)) CHR '' '' @ l @ '' ('' @ v @ ''):'')"
  unfolding groupHeader_def readProp_def
  by (cases "nullish g") (auto simp: template_header indentOf_replicate simp del: template.simps)

lemma groupData_eq:
  "groupData fm g = Inr bucket \<longleftrightarrow>
     (\<exists>key. toStr (getProp g ''key'') = Inr key \<and> bucket = getProp fm (key @ ''!T''))"
  unfolding groupData_def by (auto simp: bindE_eq_Inr)

lemma groupSubtotals_array:
  assumes "groupSubtotals ai bucket e = Inr subtotals"
    and "getProp bucket ''aggregates'' = JArr aggs" and "aggs \<noteq> []"
  shows "aggregateLines (replicate (2 * (e + 2)) CHR '' '') ai (JArr aggs) = Inr subtotals"
proof -
  have "\<not> nullish bucket" using assms(2) by (cases bucket) auto
  then have "optProp bucket ''aggregates'' = JArr aggs"
    using assms(2) by (simp add: optProp_def)
  moreover have "indentOf e @ ''  '' = replicate (2 * (e + 2)) CHR '' ''"
  proof -
    have "''  '' = replicate 2 CHR '' ''" by (simp add: numeral_2_eq_2)
    then have "indentOf e @ ''  '' = replicate (2 * (e + 1) + 2) CHR '' ''"
      unfolding indentOf_replicate replicate_add by simp
    then show ?thesis by (simp add: algebra_simps)
  qed
  ultimately show ?thesis
    using assms by (simp add: groupSubtotals_def gt0_length_JArr)
qed

lemma groupOwnLines_eq:
  "groupOwnLines fm ai ci md incl e g = Inr own \<longleftrightarrow>
     (\<exists>l v key subtotals rows.
        \<not> nullish g
      \<and> toStr (getProp g ''label'') = Inr l \<and> toStr (getProp g ''value'') = Inr v
      \<and> toStr (getProp g ''key'') = Inr key
      \<and> groupSubtotals ai (getProp fm (key @ ''!T'')) e = Inr subtotals
      \<and> groupRows ci md incl (getProp fm (key @ ''!T'')) e = Inr rows
      \<and> own = (replicate (2 * (e + 1)) CHR '' '' @ l @ '' ('' @ v @ ''):'') # subtotals @ rows)"
  unfolding groupOwnLines_def bindE_eq_Inr groupHeader_eq groupData_eq
  by (rule iffI; clarsimp; blast)

text \<open>
  \<^bold>\<open>C1.\<close> Whenever \<^verbatim>\<open>formatGroupings\<close> returns, every grouping node \<open>g\<close> it reaches at
  depth \<open>e\<close> has its header line \<^verbatim>\<open><label> (<value>):\<close> in the output behind exactly
  \<open>2 * (e + 1)\<close> spaces. The header is followed at once by the node's subtotal lines
  (those of the bucket \<^verbatim>\<open><key>!T\<close>; for a non-empty array of aggregates, one line per
  aggregate behind \<open>2 * (e + 2)\<close> spaces), then by its detail rows, and only then by the
  rendering of its sub-groupings, in which every child's header stands behind
  \<open>2 * (e + 2)\<close> spaces.
\<close>

theorem group_header_indent_and_subtotals_first:
  assumes "formatGroupings groupings factMap aggregateInfo columnInfo metadata incl lines d = Inr out"
    and "groupAt groupings d g e"
  shows "\<exists>pre l v key subtotals rows kids post.
      out = pre @ [replicate (2 * (e + 1)) CHR '' '' @ l @ '' ('' @ v @ ''):'']
              @ subtotals @ rows @ kids @ post
    \<and> toStr (getProp g ''label'') = Inr l \<and> toStr (getProp g ''value'') = Inr v
    \<and> toStr (getProp g ''key'') = Inr key
    \<and> groupSubtotals aggregateInfo (getProp factMap (key @ ''!T'')) e = Inr subtotals
    \<and> (\<forall>aggs. getProp (getProp factMap (key @ ''!T'')) ''aggregates'' = JArr aggs \<and> aggs \<noteq> [] \<longrightarrow>
          aggregateLines (replicate (2 * (e + 2)) CHR '' '') aggregateInfo (JArr aggs) = Inr subtotals)
    \<and> groupRows columnInfo metadata incl (getProp factMap (key @ ''!T'')) e = Inr rows
    \<and> (\<exists>sub. hasSubGroupings g = Inr sub
          \<and> (if sub
              then formatGroupings (getProp g ''groupings'') factMap aggregateInfo columnInfo
                     metadata incl [] (e + 1) = Inr kids
              else kids = []))
    \<and> (\<forall>cs c. hasSubGroupings g = Inr True \<and> iterate (getProp g ''groupings'') = Inr cs
                 \<and> c \<in> set cs \<longrightarrow>
          (\<exists>before lc vc after.
              kids = before @ [replicate (2 * (e + 2)) CHR '' '' @ lc @ '' ('' @ vc @ ''):''] @ after
            \<and> toStr (getProp c ''label'') = Inr lc \<and> toStr (getProp c ''value'') = Inr vc))"
proof -
  from formatGroupings_accD[OF assms(1)] obtain xs where
    xs: "formatGroupings groupings factMap aggregateInfo columnInfo metadata incl [] d = Inr xs"
    and out: "out = lines @ xs"
    by blast
  from groupAt_rendered[OF assms(2) xs] obtain pre own sub kids post where
    x: "xs = pre @ own @ kids @ post"
    and own: "groupOwnLines factMap aggregateInfo columnInfo metadata incl e g = Inr own"
    and sub: "hasSubGroupings g = Inr sub"
    and kids: "if sub then formatGroupings (getProp g ''groupings'') factMap aggregateInfo columnInfo
                 metadata incl [] (Suc e) = Inr kids else kids = []"
    by blast
  from own obtain l v key subtotals rows where
    l: "toStr (getProp g ''label'') = Inr l" and v: "toStr (getProp g ''value'') = Inr v"
    and key: "toStr (getProp g ''key'') = Inr key"
    and st: "groupSubtotals aggregateInfo (getProp factMap (key @ ''!T'')) e = Inr subtotals"
    and rw: "groupRows columnInfo metadata incl (getProp factMap (key @ ''!T'')) e = Inr rows"
    and o: "own = (replicate (2 * (e + 1)) CHR '' '' @ l @ '' ('' @ v @ ''):'') # subtotals @ rows"
    unfolding groupOwnLines_eq by blast
  have shape: "out = (lines @ pre) @ [replicate (2 * (e + 1)) CHR '' '' @ l @ '' ('' @ v @ ''):'']
              @ subtotals @ rows @ kids @ post"
    using out x o by simp
  have aggs: "\<forall>aggs. getProp (getProp factMap (key @ ''!T'')) ''aggregates'' = JArr aggs \<and> aggs \<noteq> [] \<longrightarrow>
          aggregateLines (replicate (2 * (e + 2)) CHR '' '') aggregateInfo (JArr aggs) = Inr subtotals"
    using groupSubtotals_array[OF st] by blast
  have children: "\<forall>cs c. hasSubGroupings g = Inr True \<and> iterate (getProp g ''groupings'') = Inr cs
                 \<and> c \<in> set cs \<longrightarrow>
          (\<exists>before lc vc after.
              kids = before @ [replicate (2 * (e + 2)) CHR '' '' @ lc @ '' ('' @ vc @ ''):''] @ after
            \<and> toStr (getProp c ''label'') = Inr lc \<and> toStr (getProp c ''value'') = Inr vc)"
  proof (intro allI impI)
    fix cs c
    assume a: "hasSubGroupings g = Inr True \<and> iterate (getProp g ''groupings'') = Inr cs \<and> c \<in> set cs"
    with sub kids have k: "formatGroupings (getProp g ''groupings'') factMap aggregateInfo columnInfo
                 metadata incl [] (Suc e) = Inr kids"
      by simp
    from a have "groupAt (getProp g ''groupings'') (Suc e) c (Suc e)"
      by (auto intro: groupAt.here)
    from groupAt_rendered[OF this k] obtain pre' own' kids' post' where
      k': "kids = pre' @ own' @ kids' @ post'"
      and o': "groupOwnLines factMap aggregateInfo columnInfo metadata incl (Suc e) c = Inr own'"
      by blast
    from o' obtain lc vc rest where
      "toStr (getProp c ''label'') = Inr lc" "toStr (getProp c ''value'') = Inr vc"
      "own' = (replicate (2 * (Suc e + 1)) CHR '' '' @ lc @ '' ('' @ vc @ ''):'') # rest"
      unfolding groupOwnLines_eq by blast
    moreover from this k' have
      "kids = pre' @ [replicate (2 * (e + 2)) CHR '' '' @ lc @ '' ('' @ vc @ ''):''] @ (rest @ kids' @ post')"
      by simp
    ultimately show "\<exists>before lc vc after.
              kids = before @ [replicate (2 * (e + 2)) CHR '' '' @ lc @ '' ('' @ vc @ ''):''] @ after
            \<and> toStr (getProp c ''label'') = Inr lc \<and> toStr (getProp c ''value'') = Inr vc"
      by blast
  qed
  from sub kids have "\<exists>sub. hasSubGroupings g = Inr sub
          \<and> (if sub
              then formatGroupings (getProp g ''groupings'') factMap aggregateInfo columnInfo
                     metadata incl [] (e + 1) = Inr kids
              else kids = [])"
    by auto
  with shape l v key st aggs rw children show ?thesis by blast
qed

theorem group_header_indent_and_subtotals_first_witness:
  "formatGroupings (JArr [exampleParent]) exampleFactMap exampleAggregateInfo (JObj []) JUndefined
     False [[], ''Grouped Results:''] 0
     = Inr [[], ''Grouped Results:'', ''  West (W):'', ''    Sum of Amount: 42'', ''    Q1 (q1):'',
            ''      Sum of Amount: $7'']
   \<and> groupAt (JArr [exampleParent]) 0 exampleParent 0
   \<and> (\<exists>pre kids post.
         [[], ''Grouped Results:'', ''  West (W):'', ''    Sum of Amount: 42'', ''    Q1 (q1):'',
          ''      Sum of Amount: $7'']
           = pre @ [''  West (W):''] @ [''    Sum of Amount: 42''] @ [] @ kids @ post
       \<and> (\<exists>before after. kids = before @ [''    Q1 (q1):''] @ after))"
proof -
  let ?out = "[[], ''Grouped Results:'', ''  West (W):'', ''    Sum of Amount: 42'', ''    Q1 (q1):'',
          ''      Sum of Amount: $7'']"
  have run: "formatGroupings (JArr [exampleParent]) exampleFactMap exampleAggregateInfo (JObj []) JUndefined
     False [[], ''Grouped Results:''] 0 = Inr ?out"
    by code_simp
  have at: "groupAt (JArr [exampleParent]) 0 exampleParent 0"
    by (rule groupAt.here[of _ "[exampleParent]"]) simp_all
  from group_header_indent_and_subtotals_first[OF run at]
  obtain pre l v key subtotals rows kids post where
    shape: "?out = pre @ [replicate (2 * (0 + 1)) CHR '' '' @ l @ '' ('' @ v @ ''):'']
              @ subtotals @ rows @ kids @ post"
    and l: "toStr (getProp exampleParent ''label'') = Inr l"
    and v: "toStr (getProp exampleParent ''value'') = Inr v"
    and key: "toStr (getProp exampleParent ''key'') = Inr key"
    and st: "groupSubtotals exampleAggregateInfo (getProp exampleFactMap (key @ ''!T'')) 0 = Inr subtotals"
    and rw: "groupRows (JObj []) JUndefined False (getProp exampleFactMap (key @ ''!T'')) 0 = Inr rows"
    and ch: "\<forall>cs c. hasSubGroupings exampleParent = Inr True
                 \<and> iterate (getProp exampleParent ''groupings'') = Inr cs \<and> c \<in> set cs \<longrightarrow>
          (\<exists>before lc vc after.
              kids = before @ [replicate (2 * (0 + 2)) CHR '' '' @ lc @ '' ('' @ vc @ ''):''] @ after
            \<and> toStr (getProp c ''label'') = Inr lc \<and> toStr (getProp c ''value'') = Inr vc)"
    by blast
  from l v key have lv: "l = ''West''" "v = ''W''" "key = ''0''"
    by (simp_all add: exampleParent_def)
  have "groupSubtotals exampleAggregateInfo (getProp exampleFactMap (''0'' @ ''!T'')) 0
      = Inr [''    Sum of Amount: 42'']"
    by code_simp
  with st lv have subtotals: "subtotals = [''    Sum of Amount: 42'']" by simp
  from rw have rows: "rows = []" by (simp add: groupRows_def)
  have "hasSubGroupings exampleParent = Inr True"
    "iterate (getProp exampleParent ''groupings'') = Inr [exampleChild]"
    by code_simp+
  with ch have "\<exists>before lc vc after.
              kids = before @ [replicate (2 * (0 + 2)) CHR '' '' @ lc @ '' ('' @ vc @ ''):''] @ after
            \<and> toStr (getProp exampleChild ''label'') = Inr lc
            \<and> toStr (getProp exampleChild ''value'') = Inr vc"
    by simp
  then obtain before after where "kids = before @ [''    Q1 (q1):''] @ after"
    by (auto simp: exampleChild_def numeral_eq_Suc)
  moreover from shape lv subtotals rows
  have "?out = pre @ [''  West (W):''] @ [''    Sum of Amount: 42''] @ [] @ kids @ post"
    by (simp add: numeral_eq_Suc)
  ultimately show ?thesis using run at by blast
qed


section \<open>The formatter on well-formed trees\<close>

text \<open>
  The formatter returns on every well-formed tree. The lemmas follow the source from
  the conversions up to \<^verbatim>\<open>formatReportResults\<close>.
\<close>

subsection \<open>Printable values convert to text\<close>

lemma mapE_total:
  "(\<forall>x \<in> set xs. \<exists>y. f x = Inr y) \<Longrightarrow> \<exists>ys. mapE f xs = Inr ys"
proof (induction xs)
  case Nil
  show ?case by simp
next
  case (Cons x xs)
  then obtain y ys where "f x = Inr y" "mapE f xs = Inr ys" by auto
  then show ?case by simp
qed

lemma printable_joinWith:
  assumes "\<forall>x \<in> set xs. \<exists>s. toStr x = Inr s"
  shows "\<exists>s. joinWith sep xs = Inr s"
proof -
  have "\<forall>x \<in> set xs. \<exists>s. itemText x = Inr s"
    using assms by (auto simp: itemText_def)
  from mapE_total[OF this] show ?thesis
    by (auto simp: joinWith_mapE)
qed

lemma printable_toStr: "printable v \<Longrightarrow> \<exists>s. toStr v = Inr s"
proof (induction v)
  case (JArr xs)
  then have "\<forall>x \<in> set xs. \<exists>s. toStr x = Inr s" by auto
  from printable_joinWith[OF this] show ?case by simp
qed auto

lemma printable_join: "\<forall>x \<in> set xs. printable x \<Longrightarrow> \<exists>s. joinWith sep xs = Inr s"
  by (rule printable_joinWith) (auto dest: printable_toStr)

lemma find_index_less: "find (\<lambda>i. P i) [0..<n] = Some i \<Longrightarrow> i < n"
  by (auto simp: find_Some_iff)

lemma printable_getProp: "printable v \<Longrightarrow> printable (getProp v k)"
proof (cases v)
  case (JObj kvs)
  assume "printable v"
  then show ?thesis using JObj
    by (auto split: option.splits dest!: map_of_SomeD)
next
  case (JArr xs)
  assume "printable v"
  then show ?thesis using JArr
    by (auto simp: indexOfKey_def split: option.splits dest!: find_index_less)
next
  case (JStr s)
  then show ?thesis by (auto split: option.splits)
qed auto

lemma printable_optProp: "printable v \<Longrightarrow> printable (optProp v k)"
  by (simp add: optProp_def printable_getProp)

lemma printable_elemAt: "printable v \<Longrightarrow> printable (elemAt v i)"
  by (cases v) (auto split: option.splits dest!: map_of_SomeD)

lemma printable_orElse: "printable a \<Longrightarrow> printable b \<Longrightarrow> printable (orElse a b)"
  by (simp add: orElse_def)

lemma printable_coalesce: "printable a \<Longrightarrow> printable b \<Longrightarrow> printable (coalesce a b)"
  by (simp add: coalesce_def)

lemma template_total:
  "(\<forall>v. Sub v \<in> set ps \<longrightarrow> printable v) \<Longrightarrow> \<exists>s. template ps = Inr s"
proof (induction ps rule: template.induct)
  case 1
  show ?case by simp
next
  case (2 s ps)
  then obtain r where "template ps = Inr r" by auto
  then show ?case by simp
next
  case (3 v ps)
  then obtain r where "template ps = Inr r" by auto
  moreover from 3 printable_toStr[of v] obtain s where "toStr v = Inr s" by auto
  ultimately show ?case by simp
qed

lemma mapE_total_printable:
  "(\<forall>x \<in> set xs. \<exists>y. f x = Inr y \<and> printable y) \<Longrightarrow>
     \<exists>ys. mapE f xs = Inr ys \<and> (\<forall>y \<in> set ys. printable y)"
proof (induction xs)
  case Nil
  show ?case by simp
next
  case (Cons x xs)
  then obtain y ys where "f x = Inr y" "printable y" "mapE f xs = Inr ys" "\<forall>y \<in> set ys. printable y"
    by auto
  then show ?case by simp
qed

lemma gt0_falsy: "\<not> truthy v \<Longrightarrow> gt0 (optProp v ''length'') = Inr False"
  by (cases v) (auto simp: gt0_def optProp_def indexOfKey_def)

lemma entriesOk_cases:
  assumes "entriesOk P v"
  obtains (array) xs where "v = JArr xs" "\<forall>x \<in> set xs. P x" | (falsy) "\<not> truthy v"
  using assms by (cases v) auto

lemma orElse_entries:
  "entriesOk P v \<Longrightarrow> \<exists>xs. orElse v (JArr []) = JArr xs \<and> (\<forall>x \<in> set xs. P x)"
  by (erule entriesOk_cases) (auto simp: orElse_def)

subsection \<open>The summary and the grouping counts\<close>

lemma not_nullish_truthy: "truthy v \<Longrightarrow> \<not> nullish v"
  by (cases v) auto

lemma optProp_truthy: "\<not> nullish v \<Longrightarrow> optProp v k = getProp v k"
  by (simp add: optProp_def)

lemma gt0_entries:
  "entriesOk P v \<Longrightarrow> \<exists>b. gt0 (optProp v ''length'') = Inr b \<and> (b \<longrightarrow> (\<exists>xs. v = JArr xs \<and> xs \<noteq> []))"
  by (erule entriesOk_cases) (auto simp: gt0_falsy gt0_length_JArr)

lemma filterLine_total:
  "\<not> nullish f \<Longrightarrow> printable f \<Longrightarrow> \<exists>l. filterLine f = Inr l"
  unfolding filterLine_def readProp_def
  using template_total[of "[Lit ''  - '', Sub (getProp f ''column''), Lit '' '',
                            Sub (getProp f ''operator''), Lit '' '', Sub (getProp f ''value'')]"]
  by (auto simp: printable_getProp simp del: template.simps)

lemma pushSummary_total:
  assumes "printable md"
    and "entriesOk (\<lambda>f. \<not> nullish f) (optProp md ''reportFilters'')"
  shows "\<exists>out. pushSummary md ls = Inr out"
proof (cases "truthy md")
  case False
  then show ?thesis by (simp add: pushSummary_def)
next
  case True
  then have rf: "optProp md ''reportFilters'' = getProp md ''reportFilters''"
    by (simp add: optProp_truthy not_nullish_truthy)
  obtain l1 where l1: "template [Lit ''Report: '', Sub (getProp md ''name'')] = Inr l1"
    using template_total[of "[Lit ''Report: '', Sub (getProp md ''name'')]"] assms(1)
    by (auto simp: printable_getProp simp del: template.simps)
  obtain l2 where l2: "template [Lit ''Format: '', Sub (getProp md ''reportFormat'')] = Inr l2"
    using template_total[of "[Lit ''Format: '', Sub (getProp md ''reportFormat'')]"] assms(1)
    by (auto simp: printable_getProp simp del: template.simps)
  from gt0_entries[OF assms(2)] obtain b where
    b: "gt0 (optProp (getProp md ''reportFilters'') ''length'') = Inr b"
    and arr: "b \<longrightarrow> (\<exists>xs. getProp md ''reportFilters'' = JArr xs \<and> xs \<noteq> [])"
    unfolding rf by blast
  have "\<exists>fl. (if b then
                 bindE (template [Lit ''Active Filters: '',
                                  Sub (getProp (getProp md ''reportFilters'') ''length'')]) (\<lambda>l3.
                 bindE (iterate (getProp md ''reportFilters'')) (\<lambda>fs.
                 bindE (mapE filterLine fs) (\<lambda>ls. Inr (l3 # ls))))
               else Inr []) = Inr fl"
  proof (cases b)
    case False
    then show ?thesis by simp
  next
    case True
    with arr obtain xs where xs: "getProp md ''reportFilters'' = JArr xs" by blast
    with assms(2) rf have nn: "\<forall>x \<in> set xs. \<not> nullish x" by simp
    have "printable (JArr xs)" using assms(1) xs printable_getProp[of md "''reportFilters''"] by simp
    then have "\<forall>x \<in> set xs. \<exists>l. filterLine x = Inr l"
      using nn by (auto intro: filterLine_total)
    from mapE_total[OF this] obtain fls where "mapE filterLine xs = Inr fls" by blast
    then show ?thesis using True xs by (simp add: showInt_nat)
  qed
  then obtain fl where "(if b then
                 bindE (template [Lit ''Active Filters: '',
                                  Sub (getProp (getProp md ''reportFilters'') ''length'')]) (\<lambda>l3.
                 bindE (iterate (getProp md ''reportFilters'')) (\<lambda>fs.
                 bindE (mapE filterLine fs) (\<lambda>ls. Inr (l3 # ls))))
               else Inr []) = Inr fl"
    by blast
  then show ?thesis
    unfolding pushSummary_def using True l1 l2 b by simp
qed

lemma pushCount_total: "\<exists>out. pushCount title (JArr xs) ls = Inr out"
  by (simp add: pushCount_def gt0_def showInt_nat)

subsection \<open>Aggregates, grand totals and detail rows\<close>

lemma printable_aggLabel: "printable ai \<Longrightarrow> printable (aggLabel ai keys i)"
  by (simp add: aggLabel_def printable_orElse printable_optProp printable_getProp)

lemma aggregateLines_total:
  assumes "printable ai" and "printable (JArr xs)" and "\<forall>x \<in> set xs. \<not> nullish x"
  shows "\<exists>ls. aggregateLines pre ai (JArr xs) = Inr ls"
proof -
  have "\<exists>l. aggregateLine pre ai (objectKeys ai) (JArr xs) i = Inr l" if "i \<in> set [0..<length xs]" for i
  proof -
    from that have i: "i < length xs" by simp
    then have x: "xs ! i \<in> set xs" by simp
    with assms have nn: "\<not> nullish (xs ! i)" and pr: "printable (xs ! i)" by auto
    let ?v = "coalesce (getProp (xs ! i) ''label'') (coalesce (getProp (xs ! i) ''value'') (JStr ''N/A''))"
    have "printable ?v" using pr by (simp add: printable_coalesce printable_getProp)
    then obtain l where "template [Lit pre, Sub (aggLabel ai (objectKeys ai) i), Lit '': '', Sub ?v] = Inr l"
      using template_total[of "[Lit pre, Sub (aggLabel ai (objectKeys ai) i), Lit '': '', Sub ?v]"]
        printable_aggLabel[OF assms(1)]
      by (auto simp del: template.simps)
    then show ?thesis
      using i nn by (simp add: aggregateLine_def aggValue_def readProp_def del: template.simps)
  qed
  then have "\<forall>i \<in> set [0..<length xs]. \<exists>l. aggregateLine pre ai (objectKeys ai) (JArr xs) i = Inr l"
    by blast
  from mapE_total[OF this] show ?thesis
    unfolding aggregateLines_def loopBound_length_JArr by simp
qed

lemma aggregates_total:
  assumes "printable ai" and "printable b" and "entriesOk (\<lambda>a. \<not> nullish a) (optProp b ''aggregates'')"
  shows "\<exists>some. gt0 (optProp (optProp b ''aggregates'') ''length'') = Inr some
           \<and> (some \<longrightarrow> (\<exists>ls. aggregateLines pre ai (getProp b ''aggregates'') = Inr ls))"
proof -
  from gt0_entries[OF assms(3)] obtain some where
    some: "gt0 (optProp (optProp b ''aggregates'') ''length'') = Inr some"
    and arr: "some \<longrightarrow> (\<exists>xs. optProp b ''aggregates'' = JArr xs \<and> xs \<noteq> [])"
    by blast
  have "\<exists>ls. aggregateLines pre ai (getProp b ''aggregates'') = Inr ls" if some
  proof -
    from that arr obtain xs where xs: "optProp b ''aggregates'' = JArr xs" by blast
    then have g: "getProp b ''aggregates'' = JArr xs"
      by (cases "nullish b") (simp_all add: optProp_def)
    have "printable (JArr xs)" using assms(2) printable_getProp[of b "''aggregates''"] g by simp
    moreover have "\<forall>x \<in> set xs. \<not> nullish x" using assms(3) xs by simp
    ultimately show ?thesis using aggregateLines_total[OF assms(1)] g by simp
  qed
  with some show ?thesis by blast
qed

lemma pushGrandTotals_total:
  assumes "printable ai" and "printable fm" and "bucketOk (getProp fm ''T!T'')"
  shows "\<exists>out. pushGrandTotals fm ai ls = Inr out"
proof (cases "truthy (getProp fm ''T!T'')")
  case False
  then show ?thesis by (simp add: pushGrandTotals_def)
next
  case True
  let ?b = "getProp fm ''T!T''"
  have pb: "printable ?b" using assms(2) by (rule printable_getProp)
  have o: "optProp ?b ''aggregates'' = getProp ?b ''aggregates''"
    using True by (simp add: optProp_truthy not_nullish_truthy)
  from aggregates_total[OF assms(1) pb, of "''  ''"] assms(3) obtain some where
    "gt0 (optProp (getProp ?b ''aggregates'') ''length'') = Inr some"
    "some \<longrightarrow> (\<exists>ls. aggregateLines ''  '' ai (getProp ?b ''aggregates'') = Inr ls)"
    unfolding bucketOk_def o by blast
  then show ?thesis
    using True by (cases some) (auto simp: pushGrandTotals_def Let_def)
qed

lemma cellValue_total: "\<not> nullish c \<Longrightarrow> printable c \<Longrightarrow> \<exists>v. cellValue c = Inr v \<and> printable v"
  by (simp add: cellValue_def readProp_def printable_coalesce printable_getProp)

lemma rowOk_cells:
  assumes "rowOk row" and "printable row"
  obtains cs where "\<not> nullish row" "getProp row ''dataCells'' = JArr cs"
    "\<forall>c \<in> set cs. \<not> nullish c \<and> printable c"
proof -
  from assms(1) have nn: "\<not> nullish row" by (simp add: rowOk_def)
  from assms(1) obtain cs where cs: "getProp row ''dataCells'' = JArr cs" "\<forall>c \<in> set cs. \<not> nullish c"
    by (cases "getProp row ''dataCells''") (auto simp: rowOk_def)
  from assms(2) have "printable (getProp row ''dataCells'')" by (rule printable_getProp)
  with cs have "\<forall>c \<in> set cs. printable c" by simp
  with nn cs that show ?thesis by blast
qed

lemma detailRowLine_total:
  assumes "rowOk row" and "printable row"
  shows "\<exists>l. detailRowLine row = Inr l"
proof -
  from assms obtain cs where nn: "\<not> nullish row" and cs: "getProp row ''dataCells'' = JArr cs"
    and ok: "\<forall>c \<in> set cs. \<not> nullish c \<and> printable c"
    by (rule rowOk_cells)
  from ok have "\<forall>c \<in> set cs. \<exists>v. cellValue c = Inr v \<and> printable v"
    by (auto intro: cellValue_total)
  from mapE_total_printable[OF this] obtain vs where vs: "mapE cellValue cs = Inr vs"
    and pv: "\<forall>v \<in> set vs. printable v"
    by blast
  from printable_join[OF pv] obtain j where "joinWith '' | '' vs = Inr j" by blast
  with nn cs vs show ?thesis by (simp add: detailRowLine_def readProp_def)
qed

lemma headerLabel_total:
  "printable ci \<Longrightarrow> printable col \<Longrightarrow> \<exists>l. headerLabel ci col = Inr l \<and> printable l"
  using printable_toStr[of col]
  by (auto simp: headerLabel_def printable_orElse printable_optProp printable_getProp)

lemma pushDetailRows_total:
  assumes "printable fm" and "printable md" and "printable ci"
    and "bucketOk (getProp fm ''T!T'')"
    and "entriesOk (\<lambda>c. True) (optProp md ''detailColumns'')"
  shows "\<exists>out. pushDetailRows incl fm md ci ls = Inr out"
proof (cases "incl \<and> truthy (optProp (getProp fm ''T!T'') ''rows'')")
  case False
  then show ?thesis by (auto simp: pushDetailRows_def)
next
  case True
  let ?b = "getProp fm ''T!T''"
  have pb: "printable ?b" using assms(1) by (rule printable_getProp)
  from True have nb: "\<not> nullish ?b" by (auto simp: optProp_def split: if_splits)
  then have o: "optProp ?b ''rows'' = getProp ?b ''rows''" by (simp add: optProp_def)
  from assms(4) True o obtain rs where rs: "getProp ?b ''rows'' = JArr rs" and rok: "\<forall>r \<in> set rs. rowOk r"
    by (auto simp: bucketOk_def elim: entriesOk_cases)
  have "printable (JArr rs)" using pb printable_getProp[of ?b "''rows''"] rs by simp
  with rok have "\<forall>r \<in> set rs. \<exists>l. detailRowLine r = Inr l"
    by (auto intro: detailRowLine_total)
  from mapE_total[OF this] obtain body where body: "mapE detailRowLine rs = Inr body" by blast
  from orElse_entries[OF assms(5)] obtain cols where
    cols: "orElse (optProp md ''detailColumns'') (JArr []) = JArr cols"
    by blast
  have "printable (JArr cols)"
    using cols printable_orElse[of "optProp md ''detailColumns''" "JArr []"] assms(2)
    by (simp add: printable_optProp)
  then have "\<forall>c \<in> set cols. \<exists>l. headerLabel ci c = Inr l \<and> printable l"
    using assms(3) by (auto intro: headerLabel_total)
  from mapE_total_printable[OF this] obtain hls where hls: "mapE (headerLabel ci) cols = Inr hls"
    and ph: "\<forall>h \<in> set hls. printable h"
    by blast
  from printable_join[OF ph] obtain h where h: "joinWith '' | '' hls = Inr h" by blast
  have "\<forall>x \<in> set (map (\<lambda>l. JStr ''---'') hls). printable x" by simp
  from printable_join[OF this] obtain d where d: "joinWith '' | '' (map (\<lambda>l. JStr ''---'') hls) = Inr d"
    by blast
  show ?thesis
    unfolding pushDetailRows_def Let_def
    using True rs cols hls h d body by (simp add: showInt_nat)
qed

subsection \<open>Groupings\<close>

lemma factsOk_bucket: "factsOk fm \<Longrightarrow> bucketOk (getProp fm k)"
proof (cases fm)
  case (JObj kvs)
  assume "factsOk fm"
  with JObj have all: "\<forall>p \<in> set kvs. bucketOk (snd p)" by simp
  show ?thesis
  proof (cases "map_of kvs k")
    case None
    then show ?thesis using JObj by (simp add: bucketOk_def optProp_def)
  next
    case (Some v)
    then have "(k, v) \<in> set kvs" by (rule map_of_SomeD)
    with all have "bucketOk v" by force
    then show ?thesis using JObj Some by simp
  qed
next
  case (JStr s)
  assume "factsOk fm"
  with JStr have "s = []" by simp
  then show ?thesis using JStr by (simp add: bucketOk_def optProp_def indexOfKey_def)
next
  case (JArr xs)
  assume "factsOk fm"
  with JArr show ?thesis by simp
qed (simp_all add: bucketOk_def optProp_def)

lemma groupHeader_total:
  assumes "\<not> nullish g" and "printable g"
  shows "\<exists>h. groupHeader g depth = Inr h"
  unfolding groupHeader_def readProp_def
  using assms template_total[of "[Lit (indentOf depth), Sub (getProp g ''label''), Lit '' ('',
                                   Sub (getProp g ''value''), Lit ''):'']"]
  by (auto simp: printable_getProp simp del: template.simps)

lemma groupData_total:
  assumes "printable g"
  shows "\<exists>k. groupData fm g = Inr (getProp fm k)"
proof -
  from template_total[of "[Sub (getProp g ''key''), Lit ''!T'']"] assms
  obtain k where "template [Sub (getProp g ''key''), Lit ''!T''] = Inr k"
    by (auto simp: printable_getProp simp del: template.simps)
  then show ?thesis by (auto simp: groupData_def simp del: template.simps)
qed

lemma groupSubtotals_total:
  assumes "printable ai" and "printable b" and "bucketOk b"
  shows "\<exists>ls. groupSubtotals ai b depth = Inr ls"
proof -
  from aggregates_total[OF assms(1,2), of "indentOf depth @ ''  ''"] assms(3) obtain some where
    "gt0 (optProp (optProp b ''aggregates'') ''length'') = Inr some"
    "some \<longrightarrow> (\<exists>ls. aggregateLines (indentOf depth @ ''  '') ai (getProp b ''aggregates'') = Inr ls)"
    unfolding bucketOk_def by blast
  then show ?thesis by (cases some) (auto simp: groupSubtotals_def)
qed

lemma groupCell_total:
  assumes "printable ci" and "printable dc" and "\<not> nullish c" and "printable c"
  shows "\<exists>v. groupCell ci dc (i, c) = Inr v \<and> printable v"
proof -
  let ?col = "elemAt dc i"
  have pc: "printable ?col" using assms(2) by (rule printable_elemAt)
  from printable_toStr[OF pc] obtain k where k: "toStr ?col = Inr k" by blast
  from cellValue_total[OF assms(3,4)] obtain v where v: "cellValue c = Inr v" and pv: "printable v"
    by blast
  let ?lab = "orElse (orElse (optProp (getProp ci k) ''label'') ?col) (JStr (''Col'' @ showNat i))"
  have "printable ?lab"
    using assms(1) pc by (simp add: printable_orElse printable_optProp printable_getProp)
  with pv obtain t where "template [Sub ?lab, Lit '': '', Sub v] = Inr t"
    using template_total[of "[Sub ?lab, Lit '': '', Sub v]"]
    by (auto simp del: template.simps)
  with k v show ?thesis by (simp add: groupCell_def Let_def del: template.simps)
qed

lemma groupRowLine_total:
  assumes "printable ci" and "printable dc" and "rowOk row" and "printable row"
  shows "\<exists>l. groupRowLine ci dc depth row = Inr l"
proof -
  from assms(3,4) obtain cs where nn: "\<not> nullish row" and cs: "getProp row ''dataCells'' = JArr cs"
    and ok: "\<forall>c \<in> set cs. \<not> nullish c \<and> printable c"
    by (rule rowOk_cells)
  have "\<forall>ic \<in> set (zip [0..<length cs] cs). \<exists>v. groupCell ci dc ic = Inr v \<and> printable v"
  proof
    fix ic
    assume "ic \<in> set (zip [0..<length cs] cs)"
    then have "(fst ic, snd ic) \<in> set (zip [0..<length cs] cs)" by simp
    then have "snd ic \<in> set cs" by (rule set_zip_rightD)
    with ok have "\<not> nullish (snd ic)" "printable (snd ic)" by auto
    from groupCell_total[OF assms(1,2) this, of "fst ic"]
    show "\<exists>v. groupCell ci dc ic = Inr v \<and> printable v" by simp
  qed
  from mapE_total_printable[OF this] obtain vs where
    vs: "mapE (groupCell ci dc) (zip [0..<length cs] cs) = Inr vs"
    and pv: "\<forall>v \<in> set vs. printable v"
    by blast
  from printable_join[OF pv] obtain j where "joinWith '', '' vs = Inr j" by blast
  with nn cs vs show ?thesis by (simp add: groupRowLine_def readProp_def)
qed

lemma groupRows_total:
  assumes "printable ci" and "printable md" and "printable b" and "bucketOk b"
  shows "\<exists>ls. groupRows ci md incl b depth = Inr ls"
proof (cases incl)
  case False
  then show ?thesis by (simp add: groupRows_def)
next
  case True
  from assms(4) have rows: "entriesOk rowOk (optProp b ''rows'')" by (simp add: bucketOk_def)
  from gt0_entries[OF rows] obtain some where
    some: "gt0 (optProp (optProp b ''rows'') ''length'') = Inr some"
    and arr: "some \<longrightarrow> (\<exists>xs. optProp b ''rows'' = JArr xs \<and> xs \<noteq> [])"
    by blast
  show ?thesis
  proof (cases some)
    case False
    with some True show ?thesis by (simp add: groupRows_def)
  next
    case yes: True
    with arr obtain rs where o: "optProp b ''rows'' = JArr rs" by blast
    then have rs: "getProp b ''rows'' = JArr rs"
      by (cases "nullish b") (simp_all add: optProp_def)
    have "printable (JArr rs)" using assms(3) printable_getProp[of b "''rows''"] rs by simp
    moreover have "\<forall>r \<in> set rs. rowOk r" using rows o by simp
    moreover have "printable (orElse (optProp md ''detailColumns'') (JArr []))"
      using assms(2) by (simp add: printable_orElse printable_optProp)
    ultimately have
      "\<forall>r \<in> set rs. \<exists>l. groupRowLine ci (orElse (optProp md ''detailColumns'') (JArr [])) depth r = Inr l"
      using assms(1) by (auto intro: groupRowLine_total)
    from mapE_total[OF this] obtain ls where
      "mapE (groupRowLine ci (orElse (optProp md ''detailColumns'') (JArr [])) depth) rs = Inr ls"
      by blast
    with some yes True rs show ?thesis by (simp add: groupRows_def Let_def showInt_nat)
  qed
qed

lemma groupOwnLines_total:
  assumes "printable fm" and "factsOk fm" and "printable ai" and "printable ci" and "printable md"
    and "\<not> nullish g" and "printable g"
  shows "\<exists>own. groupOwnLines fm ai ci md incl depth g = Inr own"
proof -
  from groupHeader_total[OF assms(6,7)] obtain h where h: "groupHeader g depth = Inr h" by blast
  from groupData_total[OF assms(7)] obtain k where k: "groupData fm g = Inr (getProp fm k)" by blast
  have pb: "printable (getProp fm k)" using assms(1) by (rule printable_getProp)
  have ok: "bucketOk (getProp fm k)" using assms(2) by (rule factsOk_bucket)
  from groupSubtotals_total[OF assms(3) pb ok] obtain st where
    st: "groupSubtotals ai (getProp fm k) depth = Inr st" by blast
  from groupRows_total[OF assms(4,5) pb ok] obtain rs where
    rs: "groupRows ci md incl (getProp fm k) depth = Inr rs" by blast
  from h k st rs show ?thesis by (simp add: groupOwnLines_def)
qed

lemma forestOk_gt0:
  "forestOk v \<Longrightarrow> \<exists>b. gt0 (optProp v ''length'') = Inr b \<and> (b \<longrightarrow> (\<exists>gs. v = JArr gs))"
  by (cases v) (auto simp: gt0_def optProp_def)

lemma nodeOk_sub:
  assumes "nodeOk g"
  shows "\<not> nullish g" and "forestOk (getProp g ''groupings'')"
proof -
  from assms obtain kvs where g: "g = JObj kvs" by (cases g) auto
  then show "\<not> nullish g" by simp
  show "forestOk (getProp g ''groupings'')"
    using assms g by (cases "map_of kvs ''groupings''") auto
qed

lemma hasSubGroupings_total:
  assumes "nodeOk g"
  shows "\<exists>b. hasSubGroupings g = Inr b \<and> (b \<longrightarrow> (\<exists>gs. getProp g ''groupings'' = JArr gs))"
  unfolding hasSubGroupings_def using forestOk_gt0[OF nodeOk_sub(2)[OF assms]] .

lemma formatGroupings_total_aux:
  fixes lines0 :: "string list"
  assumes "printable fm" and "factsOk fm" and "printable ai" and "printable ci" and "printable md"
  shows "forestOk v \<Longrightarrow> printable v \<Longrightarrow> truthy v \<Longrightarrow>
           \<exists>out. formatGroupings v fm ai ci md incl lines0 d = Inr out"
    and "\<forall>g \<in> set gs. nodeOk g \<and> printable g \<Longrightarrow>
           \<exists>out. formatGroupLoop gs fm ai ci md incl lines0 d = Inr out"
  using assms
proof (induction v fm ai ci md incl lines0 d and gs fm ai ci md incl lines0 d
       rule: formatGroupings_formatGroupLoop.induct)
  case (1 groupings factMap aggregateInfo columnInfo metadata includeDetails lines depth)
  from 1(2,4) obtain gs where gs: "groupings = JArr gs" by (cases groupings) auto
  then have it: "iterate groupings = Inr gs" by simp
  have "\<forall>g \<in> set gs. nodeOk g \<and> printable g" using 1(2,3) gs by simp
  from 1(1)[OF it this 1(5-9)] show ?case using it by (simp add: formatGroupings.simps)
next
  case (2 factMap aggregateInfo columnInfo metadata includeDetails lines depth)
  show ?case by simp
next
  case (3 grp rest factMap aggregateInfo columnInfo metadata includeDetails lines depth)
  from 3(3) have node: "nodeOk grp" and pg: "printable grp"
    and rest: "\<forall>g \<in> set rest. nodeOk g \<and> printable g"
    by simp_all
  from groupOwnLines_total[OF 3(4-8) nodeOk_sub(1)[OF node] pg] obtain own where
    own: "groupOwnLines factMap aggregateInfo columnInfo metadata includeDetails depth grp = Inr own"
    by blast
  from hasSubGroupings_total[OF node] obtain sub where sub: "hasSubGroupings grp = Inr sub"
    and arr: "sub \<longrightarrow> (\<exists>gs. getProp grp ''groupings'' = JArr gs)"
    by blast
  have "\<exists>lines'. (if sub
                      then formatGroupings (getProp grp ''groupings'') factMap aggregateInfo columnInfo
                             metadata includeDetails (lines @ own) (depth + 1)
                      else Inr (lines @ own)) = Inr lines'"
  proof (cases sub)
    case False
    then show ?thesis by simp
  next
    case True
    with arr have t: "truthy (getProp grp ''groupings'')" by auto
    have p: "printable (getProp grp ''groupings'')" using pg by (rule printable_getProp)
    from 3(1)[OF own sub True nodeOk_sub(2)[OF node] p t 3(4-8)] True show ?thesis by simp
  qed
  then obtain lines' where l: "(if sub
                      then formatGroupings (getProp grp ''groupings'') factMap aggregateInfo columnInfo
                             metadata includeDetails (lines @ own) (depth + 1)
                      else Inr (lines @ own)) = Inr lines'"
    by blast
  from 3(2)[OF own sub l rest 3(4-8)] obtain out where
    "formatGroupLoop rest factMap aggregateInfo columnInfo metadata includeDetails lines' depth = Inr out"
    by blast
  with own sub l show ?case by (simp del: if_split cong: if_cong)
qed

subsection \<open>The whole result\<close>

lemma forest_array:
  assumes "forestOk v" and "printable v"
  obtains gs where "orElse v (JArr []) = JArr gs" "forestOk (JArr gs)" "printable (JArr gs)"
proof (cases v)
  case (JArr gs)
  with assms that[of gs] show ?thesis by (simp add: orElse_def)
qed (use assms that[of "[]"] in \<open>auto simp: orElse_def\<close>)

lemma formatReportLines_total:
  assumes "wellFormed result"
  shows "\<exists>ls. formatReportLines result incl = Inr ls"
proof -
  let ?md = "getProp result ''reportMetadata''"
  let ?em = "getProp result ''reportExtendedMetadata''"
  let ?ci = "orElse (optProp ?em ''detailColumnInfo'') (JObj [])"
  let ?ai = "orElse (optProp ?em ''aggregateColumnInfo'') (JObj [])"
  let ?fm = "getProp result ''factMap''"
  from assms have nn: "\<not> nullish result" and pr: "printable result"
    and filters: "entriesOk (\<lambda>f. \<not> nullish f) (optProp ?md ''reportFilters'')"
    and columns: "entriesOk (\<lambda>c. True) (optProp ?md ''detailColumns'')"
    and facts: "factsOk ?fm"
    and down: "forestOk (optProp (getProp result ''groupingsDown'') ''groupings'')"
    and across: "entriesOk (\<lambda>g. True) (optProp (getProp result ''groupingsAcross'') ''groupings'')"
    by (simp_all add: wellFormed_def)
  have pmd: "printable ?md" and pem: "printable ?em" and pfm: "printable ?fm"
    using pr by (simp_all add: printable_getProp)
  have pci: "printable ?ci" and pai: "printable ?ai"
    using pem by (simp_all add: printable_orElse printable_optProp)
  from pushSummary_total[OF pmd filters] obtain l1 where l1: "pushSummary ?md [] = Inr l1" by blast
  show ?thesis
  proof (cases "truthy ?fm")
    case False
    with nn l1 show ?thesis by (simp add: formatReportLines_def readProp_def Let_def)
  next
    case True
    have "printable (optProp (getProp result ''groupingsDown'') ''groupings'')"
      using pr by (simp add: printable_optProp printable_getProp)
    with down obtain gs where
      gs: "orElse (optProp (getProp result ''groupingsDown'') ''groupings'') (JArr []) = JArr gs"
      and fgs: "forestOk (JArr gs)" and pgs: "printable (JArr gs)"
      by (rule forest_array)
    from orElse_entries[OF across] obtain hs where
      hs: "orElse (optProp (getProp result ''groupingsAcross'') ''groupings'') (JArr []) = JArr hs"
      by blast
    from pushCount_total obtain l2 where l2: "pushCount ''Row Groupings: '' (JArr gs) l1 = Inr l2"
      by blast
    from pushCount_total obtain l3 where l3: "pushCount ''Column Groupings: '' (JArr hs) l2 = Inr l3"
      by blast
    have bucket: "bucketOk (getProp ?fm ''T!T'')" using facts by (rule factsOk_bucket)
    from pushGrandTotals_total[OF pai pfm bucket] obtain l4 where
      l4: "pushGrandTotals ?fm ?ai l3 = Inr l4" by blast
    from pushDetailRows_total[OF pfm pmd pci bucket columns] obtain l5 where
      l5: "pushDetailRows incl ?fm ?md ?ci l4 = Inr l5" by blast
    have "\<exists>out. (if gs \<noteq> []
                  then formatGroupings (JArr gs) ?fm ?ai ?ci ?md incl (l5 @ [[], ''Grouped Results:'']) 0
                  else Inr l5) = Inr out"
      using formatGroupings_total_aux(1)[OF pfm facts pai pci pmd fgs pgs] by simp
    then obtain out where
      out: "(if gs \<noteq> []
             then formatGroupings (JArr gs) ?fm ?ai ?ci ?md incl (l5 @ [[], ''Grouped Results:'']) 0
             else Inr l5) = Inr out"
      by blast
    have grouped: "gt0 (JNum (int (length gs))) = Inr (gs \<noteq> [])"
      by (simp add: gt0_def)
    have "formatReportLines result incl = Inr out"
      unfolding formatReportLines_def Let_def readProp_def gs hs
      using nn l1 True l2 l3 l4 l5 out grouped
      by (simp del: if_split cong: if_cong)
    then show ?thesis by blast
  qed
qed

lemma formatReportLines_no_facts:
  assumes "\<not> nullish result" and "\<not> truthy (getProp result ''factMap'')"
    and "pushSummary (getProp result ''reportMetadata'') [] = Inr summary"
  shows "formatReportLines result incl = Inr (summary @ [''No data returned.''])"
  using assms by (simp add: formatReportLines_def readProp_def Let_def)

lemma wellFormed_exampleGrouped: "wellFormed exampleGrouped"
  by code_simp

lemma wellFormed_exampleNoFacts: "wellFormed exampleNoFacts"
  by code_simp

lemma wellFormed_empty: "wellFormed (JObj [])"
  by code_simp

text \<open>
  \<^bold>\<open>C8\<close> (as amended). On every well-formed result tree, whatever \<^verbatim>\<open>includeDetails\<close> is,
  \<^verbatim>\<open>formatReportResults\<close> returns a string and does not raise. A tree is well formed when
  it is neither \<^verbatim>\<open>undefined\<close> nor \<^verbatim>\<open>null\<close>, no object in it owns a property named
  \<^verbatim>\<open>toString\<close>, the fact map is an object (or falsy), and the report filters, the
  detail columns, the aggregates and rows of each bucket, and the groupings at every
  level are arrays (or falsy), with filters, aggregates, rows and cells that are not
  \<^verbatim>\<open>null\<close>, every row carrying an array \<^verbatim>\<open>dataCells\<close>, and every grouping node an object.
  When such a tree has no fact map, the output is the metadata summary followed by
  the line \<^verbatim>\<open>No data returned.\<close> and nothing more; it is that line alone when the tree
  has no metadata either.
\<close>

theorem formatter_total_on_well_formed_trees:
  assumes "wellFormed result"
  shows "(\<exists>text. formatReportResults result incl = Inr text)
       \<and> (\<not> truthy (getProp result ''factMap'') \<longrightarrow>
            (\<exists>summary. pushSummary (getProp result ''reportMetadata'') [] = Inr summary
               \<and> formatReportResults result incl = Inr (joinLines (summary @ [''No data returned.'']))))
       \<and> (\<not> truthy (getProp result ''factMap'') \<and> \<not> truthy (getProp result ''reportMetadata'') \<longrightarrow>
            formatReportResults result incl = Inr ''No data returned.'')"
proof (intro conjI impI)
  from formatReportLines_total[OF assms] obtain ls where "formatReportLines result incl = Inr ls"
    by blast
  then show "\<exists>text. formatReportResults result incl = Inr text"
    by (simp add: formatReportResults_def)
next
  assume nf: "\<not> truthy (getProp result ''factMap'')"
  from assms have nn: "\<not> nullish result" and pr: "printable result"
    and filters: "entriesOk (\<lambda>f. \<not> nullish f)
                    (optProp (getProp result ''reportMetadata'') ''reportFilters'')"
    by (simp_all add: wellFormed_def)
  from pushSummary_total[OF printable_getProp[OF pr] filters] obtain summary where
    s: "pushSummary (getProp result ''reportMetadata'') [] = Inr summary" by blast
  from formatReportLines_no_facts[OF nn nf s]
  have "formatReportResults result incl = Inr (joinLines (summary @ [''No data returned.'']))"
    by (simp add: formatReportResults_def)
  with s show "\<exists>summary. pushSummary (getProp result ''reportMetadata'') [] = Inr summary
               \<and> formatReportResults result incl = Inr (joinLines (summary @ [''No data returned.'']))"
    by blast
next
  assume "\<not> truthy (getProp result ''factMap'') \<and> \<not> truthy (getProp result ''reportMetadata'')"
  then have nf: "\<not> truthy (getProp result ''factMap'')"
    and s: "pushSummary (getProp result ''reportMetadata'') [] = Inr []"
    by (simp_all add: pushSummary_def)
  from assms have nn: "\<not> nullish result" by (simp add: wellFormed_def)
  from formatReportLines_no_facts[OF nn nf s]
  show "formatReportResults result incl = Inr ''No data returned.''"
    by (simp add: formatReportResults_def joinLines_def)
qed

theorem formatter_total_on_well_formed_trees_witness:
  "wellFormed exampleGrouped
   \<and> (\<exists>text. formatReportResults exampleGrouped True = Inr text)
   \<and> wellFormed exampleNoFacts
   \<and> \<not> truthy (getProp exampleNoFacts ''factMap'')
   \<and> formatReportResults exampleNoFacts True
       = Inr (joinLines [''Report: Deals'', ''Format: SUMMARY'', [], ''No data returned.''])
   \<and> wellFormed (JObj [])
   \<and> \<not> truthy (getProp (JObj []) ''factMap'')
   \<and> \<not> truthy (getProp (JObj []) ''reportMetadata'')
   \<and> formatReportResults (JObj []) True = Inr ''No data returned.''"
proof -
  have nf: "\<not> truthy (getProp exampleNoFacts ''factMap'')"
    by (simp add: exampleNoFacts_def)
  have s: "pushSummary (getProp exampleNoFacts ''reportMetadata'') []
             = Inr [''Report: Deals'', ''Format: SUMMARY'', []]"
    by code_simp
  from formatter_total_on_well_formed_trees[OF wellFormed_exampleNoFacts, of True] nf s
  have a: "formatReportResults exampleNoFacts True
       = Inr (joinLines [''Report: Deals'', ''Format: SUMMARY'', [], ''No data returned.''])"
    by auto
  have e: "\<not> truthy (getProp (JObj []) ''factMap'')" "\<not> truthy (getProp (JObj []) ''reportMetadata'')"
    by simp_all
  from formatter_total_on_well_formed_trees[OF wellFormed_empty, of True] e
  have b: "formatReportResults (JObj []) True = Inr ''No data returned.''"
    by blast
  from formatter_total_on_well_formed_trees[OF wellFormed_exampleGrouped, of True]
  have c: "\<exists>text. formatReportResults exampleGrouped True = Inr text"
    by blast
  from a b c nf e wellFormed_exampleGrouped wellFormed_exampleNoFacts wellFormed_empty
  show ?thesis by blast
qed

text \<open>
  The claim as stated fails: the formatter does raise on some trees. A row without
  \<^verbatim>\<open>dataCells\<close> makes \<^verbatim>\<open>row.dataCells.map\<close> (line 176) a TypeError; inside
  \<^verbatim>\<open>handleManageReports\<close> the \<^verbatim>\<open>catch\<close> of line 540 turns it into an error reply.
\<close>

theorem formatter_total_on_well_formed_trees_counterexample:
  "formatReportResults
     (JObj [(''factMap'', JObj [(''T!T'', JObj [(''rows'', JArr [JObj []])])])]) True
   = Inl TypeError"
  by code_simp

section \<open>Properties of the dispatcher\<close>

subsection \<open>The request's fields\<close>

lemma nonEmpty_Some: "nonEmpty s = Some t \<longleftrightarrow> s = Some t \<and> t \<noteq> []"
  by (auto simp: nonEmpty_def split: option.splits)

lemma nonEmpty_None: "nonEmpty s = None \<longleftrightarrow> s = None \<or> s = Some []"
  by (auto simp: nonEmpty_def split: option.splits)

lemma fst_reject: "fst (reject msg) = []"
  by (simp add: reject_def)

lemma fst_awaitCall: "fst (awaitCall conn op c render) = [c]"
  by (simp add: awaitCall_def)

subsection \<open>The SOQL of \<^verbatim>\<open>list\<close>\<close>

lemma calls_list:
  "operation args = OpList \<Longrightarrow>
   fst (handleManageReports conn args) =
     (case nonEmpty (queryFilter args) of
        Some q \<Rightarrow> [CallQuery (listSoql q (limit args))]
      | None \<Rightarrow> [CallReports])"
  by (simp add: handleManageReports_def fst_awaitCall split: option.splits)

lemma listSoql_where: "sublist (''WHERE '' @ q) (listSoql q lim)"
proof -
  have "\<exists>ps ss. listSoql q lim = ps @ (''WHERE '' @ q) @ ss"
    unfolding listSoql_def
    by (rule exI[of _ "''SELECT Id, Name, Description, Format, DeveloperName, FolderName, LastRunDate, CreatedDate, LastModifiedDate FROM Report ''"]) simp
  then show ?thesis by (simp add: sublist_def)
qed

lemma listSoql_None_suffix: "suffix '' LIMIT 200'' (listSoql q None)"
  unfolding listSoql_def suffix_def by simp

lemma listSoql_50_suffix: "suffix '' LIMIT 50'' (listSoql q (Some 50))"
  unfolding listSoql_def suffix_def by (simp add: showInt_50)

lemma suffix_of_drop: "suffix a b \<Longrightarrow> suffix (drop n a) b"
  by (meson suffix_drop suffix_order.trans)

lemma not_suffix_LIMIT_0: "\<not> suffix ''LIMIT 0'' (listSoql q None)"
proof
  assume "suffix ''LIMIT 0'' (listSoql q None)"
  then obtain zs where "listSoql q None = zs @ ''LIMIT 0''"
    by (auto simp: suffix_def)
  moreover obtain ws where "listSoql q None = ws @ '' LIMIT 200''"
    using listSoql_None_suffix[of q] by (auto simp: suffix_def)
  ultimately have "zs @ ''LIMIT 0'' = (ws @ '' LI'') @ ''MIT 200''"
    by simp
  then show False
    by (subst (asm) append_eq_append_conv) simp_all
qed

text \<open>
  \<^bold>\<open>C5.\<close> For a \<^verbatim>\<open>list\<close> request with a query filter \<open>q\<close>, every SOQL string passed to
  \<^verbatim>\<open>conn.query\<close> contains \<^verbatim>\<open>WHERE q\<close>; it ends with \<^verbatim>\<open>LIMIT 200\<close> when no limit is given
  and with \<^verbatim>\<open>LIMIT 50\<close> when the limit is 50. When \<open>q\<close> is not the empty string the
  handler issues exactly that one call (an empty filter is falsy in line 249, and the
  handler then asks for the recently viewed reports instead).
\<close>

theorem list_soql_where_limit:
  assumes "operation args = OpList" and "queryFilter args = Some q"
  shows "(q \<noteq> [] \<longrightarrow> fst (handleManageReports conn args) = [CallQuery (listSoql q (limit args))])
       \<and> (\<forall>soql. CallQuery soql \<in> set (fst (handleManageReports conn args)) \<longrightarrow>
              sublist (''WHERE '' @ q) soql
            \<and> (limit args = None \<longrightarrow> suffix ''LIMIT 200'' soql)
            \<and> (limit args = Some 50 \<longrightarrow> suffix ''LIMIT 50'' soql))"
proof (cases "q = []")
  case True
  then have "fst (handleManageReports conn args) = [CallReports]"
    using assms by (simp add: calls_list nonEmpty_def)
  then show ?thesis using True by simp
next
  case False
  then have calls: "fst (handleManageReports conn args) = [CallQuery (listSoql q (limit args))]"
    using assms by (simp add: calls_list nonEmpty_def)
  have "suffix ''LIMIT 200'' (listSoql q None)"
    using suffix_of_drop[OF listSoql_None_suffix, of 1 q] by simp
  moreover have "suffix ''LIMIT 50'' (listSoql q (Some 50))"
    using suffix_of_drop[OF listSoql_50_suffix, of 1 q] by simp
  ultimately show ?thesis using calls False listSoql_where[of q "limit args"] by auto
qed

theorem list_soql_where_limit_witness:
  "fst (handleManageReports (\<lambda>c. Inr JNull)
          \<lparr>operation = OpList, reportId = None, instanceId = None, includeDetails = None,
           filters = None, queryFilter = Some ''IsDeleted = false'', limit = Some 50\<rparr>)
     = [CallQuery ''SELECT Id, Name, Description, Format, DeveloperName, FolderName, LastRunDate, CreatedDate, LastModifiedDate FROM Report WHERE IsDeleted = false LIMIT 50'']
   \<and> sublist ''WHERE IsDeleted = false''
        ''SELECT Id, Name, Description, Format, DeveloperName, FolderName, LastRunDate, CreatedDate, LastModifiedDate FROM Report WHERE IsDeleted = false LIMIT 50''
   \<and> suffix ''LIMIT 50''
        ''SELECT Id, Name, Description, Format, DeveloperName, FolderName, LastRunDate, CreatedDate, LastModifiedDate FROM Report WHERE IsDeleted = false LIMIT 50''"
  using list_soql_where_limit[of
      "\<lparr>operation = OpList, reportId = None, instanceId = None, includeDetails = None,
        filters = None, queryFilter = Some ''IsDeleted = false'', limit = Some 50\<rparr>"
      "''IsDeleted = false''" "\<lambda>c. Inr JNull"]
  by (simp add: listSoql_def showInt_50)

text \<open>
  \<^bold>\<open>C10.\<close> For a \<^verbatim>\<open>list\<close> request with a query filter and the explicit limit 0, the SOQL
  passed to \<^verbatim>\<open>conn.query\<close> ends with \<^verbatim>\<open>LIMIT 200\<close> and not with \<^verbatim>\<open>LIMIT 0\<close>: line 252
  tests the limit's truthiness, so the SOQL is the one built when no limit is given.
\<close>

theorem list_limit_zero_defaults:
  assumes "operation args = OpList" and "queryFilter args = Some q" and "limit args = Some 0"
  shows "(q \<noteq> [] \<longrightarrow> fst (handleManageReports conn args) = [CallQuery (listSoql q None)])
       \<and> (\<forall>soql. CallQuery soql \<in> set (fst (handleManageReports conn args)) \<longrightarrow>
              suffix ''LIMIT 200'' soql \<and> \<not> suffix ''LIMIT 0'' soql)"
proof (cases "q = []")
  case True
  then have "fst (handleManageReports conn args) = [CallReports]"
    using assms by (simp add: calls_list nonEmpty_def)
  then show ?thesis using True by simp
next
  case False
  have "listSoql q (limit args) = listSoql q None"
    using assms(3) by (simp add: listSoql_def)
  then have calls: "fst (handleManageReports conn args) = [CallQuery (listSoql q None)]"
    using assms False by (simp add: calls_list nonEmpty_def)
  have "suffix ''LIMIT 200'' (listSoql q None)"
    using suffix_of_drop[OF listSoql_None_suffix, of 1 q] by simp
  then show ?thesis using calls not_suffix_LIMIT_0[of q] by simp
qed

theorem list_limit_zero_defaults_witness:
  "fst (handleManageReports (\<lambda>c. Inr JNull)
          \<lparr>operation = OpList, reportId = None, instanceId = None, includeDetails = None,
           filters = None, queryFilter = Some ''IsDeleted = false'', limit = Some 0\<rparr>)
     = [CallQuery ''SELECT Id, Name, Description, Format, DeveloperName, FolderName, LastRunDate, CreatedDate, LastModifiedDate FROM Report WHERE IsDeleted = false LIMIT 200'']
   \<and> \<not> suffix ''LIMIT 0''
        ''SELECT Id, Name, Description, Format, DeveloperName, FolderName, LastRunDate, CreatedDate, LastModifiedDate FROM Report WHERE IsDeleted = false LIMIT 200''"
  using list_limit_zero_defaults[of
      "\<lparr>operation = OpList, reportId = None, instanceId = None, includeDetails = None,
        filters = None, queryFilter = Some ''IsDeleted = false'', limit = Some 0\<rparr>"
      "''IsDeleted = false''" "\<lambda>c. Inr JNull"]
  by (simp add: listSoql_def)

subsection \<open>Validation\<close>

text \<open>
  \<^bold>\<open>C3.\<close> A request whose operation is not \<^verbatim>\<open>list\<close> and whose \<^verbatim>\<open>reportId\<close> is absent, and a
  \<^verbatim>\<open>getInstanceResults\<close> request whose \<^verbatim>\<open>instanceId\<close> is absent, is answered with
  \<^verbatim>\<open>isError = true\<close> and the text \<^verbatim>\<open><field> is required for <operation> operation\<close>,
  and no remote call is issued: the list of calls is empty. With no \<^verbatim>\<open>instanceId\<close> the
  field named is \<^verbatim>\<open>instanceId\<close>, unless the \<^verbatim>\<open>reportId\<close> is absent or empty too, which
  line 505 checks first.
\<close>

theorem missing_ids_rejected_without_call:
  "(operation args \<noteq> OpList \<and> reportId args = None \<longrightarrow>
      handleManageReports conn args =
        ([], Inr \<lparr>replyText = ''reportId is required for '' @ opName (operation args) @ '' operation'',
                  isError = True\<rparr>))
   \<and> (operation args = OpGetInstanceResults \<and> instanceId args = None \<longrightarrow>
      handleManageReports conn args =
        ([], Inr \<lparr>replyText =
                    (if nonEmpty (reportId args) = None then ''reportId'' else ''instanceId'')
                      @ '' is required for getInstanceResults operation'',
                  isError = True\<rparr>))"
  by (cases "operation args")
     (auto simp: handleManageReports_def reject_def nonEmpty_def split: option.splits)

theorem missing_ids_rejected_without_call_witness:
  "handleManageReports (\<lambda>c. Inr JNull)
     \<lparr>operation = OpExecute, reportId = None, instanceId = None, includeDetails = Some True,
      filters = None, queryFilter = None, limit = None\<rparr>
     = ([], Inr \<lparr>replyText = ''reportId is required for execute operation'', isError = True\<rparr>)
   \<and> handleManageReports (\<lambda>c. Inr JNull)
     \<lparr>operation = OpGetInstanceResults, reportId = Some ''00O5g00000AbCdE'', instanceId = None,
      includeDetails = None, filters = None, queryFilter = None, limit = None\<rparr>
     = ([], Inr \<lparr>replyText = ''instanceId is required for getInstanceResults operation'',
               isError = True\<rparr>)"
  using
    missing_ids_rejected_without_call[of
      "\<lparr>operation = OpExecute, reportId = None, instanceId = None, includeDetails = Some True,
        filters = None, queryFilter = None, limit = None\<rparr>" "\<lambda>c. Inr JNull"]
    missing_ids_rejected_without_call[of
      "\<lparr>operation = OpGetInstanceResults, reportId = Some ''00O5g00000AbCdE'', instanceId = None,
        includeDetails = None, filters = None, queryFilter = None, limit = None\<rparr>"
      "\<lambda>c. Inr JNull"]
  by (simp add: nonEmpty_def)

subsection \<open>The options of \<^verbatim>\<open>execute\<close> and \<^verbatim>\<open>executeAsync\<close>\<close>

text \<open>
  \<^bold>\<open>C9.\<close> For every pair of \<^verbatim>\<open>includeDetails\<close> and \<^verbatim>\<open>filters\<close> the options object built in
  the \<^verbatim>\<open>executeAsync\<close> branch equals the one built in the \<^verbatim>\<open>execute\<close> branch; for a
  request with a report id the two branches differ in the method that receives it.
\<close>

theorem async_options_equal_sync_options:
  "executeAsyncOptions incl fs = executeOptions incl fs
   \<and> (nonEmpty (reportId args) = Some rid \<longrightarrow>
        fst (handleManageReports conn (args\<lparr>operation := OpExecute\<rparr>))
          = [CallExecute rid (executeOptions (includeDetails args) (filters args))]
      \<and> fst (handleManageReports conn (args\<lparr>operation := OpExecuteAsync\<rparr>))
          = [CallExecuteAsync rid (executeOptions (includeDetails args) (filters args))])"
  by (simp add: executeAsyncOptions_def executeOptions_def handleManageReports_def fst_awaitCall)

theorem async_options_equal_sync_options_witness:
  "executeAsyncOptions (Some True) (Some [\<lparr>fColumn = ''AMOUNT'', fOperator = ''greaterThan'', fValue = ''10000''\<rparr>])
     = executeOptions (Some True) (Some [\<lparr>fColumn = ''AMOUNT'', fOperator = ''greaterThan'', fValue = ''10000''\<rparr>])
   \<and> fst (handleManageReports (\<lambda>c. Inr JNull)
          \<lparr>operation = OpExecuteAsync, reportId = Some ''00O5g00000AbCdE'', instanceId = None,
           includeDetails = Some True,
           filters = Some [\<lparr>fColumn = ''AMOUNT'', fOperator = ''greaterThan'', fValue = ''10000''\<rparr>],
           queryFilter = None, limit = None\<rparr>)
     = [CallExecuteAsync ''00O5g00000AbCdE''
          (JObj [(''details'', JBool True),
                 (''metadata'', JObj [(''reportMetadata'', JObj [(''reportFilters'',
                    JArr [JObj [(''column'', JStr ''AMOUNT''), (''operator'', JStr ''greaterThan''),
                                (''value'', JStr ''10000'')]])])])])]"
  using async_options_equal_sync_options[of "Some True"
      "Some [\<lparr>fColumn = ''AMOUNT'', fOperator = ''greaterThan'', fValue = ''10000''\<rparr>]"
      "\<lparr>operation = OpList, reportId = Some ''00O5g00000AbCdE'', instanceId = None,
        includeDetails = Some True,
        filters = Some [\<lparr>fColumn = ''AMOUNT'', fOperator = ''greaterThan'', fValue = ''10000''\<rparr>],
        queryFilter = None, limit = None\<rparr>"
      "''00O5g00000AbCdE''" "\<lambda>c. Inr JNull"]
  by (simp add: nonEmpty_def executeOptions_def filterObject_def)

lemma at_most_one_call: "length (fst (handleManageReports conn args)) \<le> 1"
  by (cases "operation args")
     (auto simp: handleManageReports_def fst_awaitCall fst_reject split: option.splits)

lemma calls_independent:
  "fst (handleManageReports conn args) = fst (handleManageReports conn' args)"
  by (cases "operation args")
     (auto simp: handleManageReports_def fst_awaitCall fst_reject split: option.splits)

lemma handleManageReportsIn_calls:
  "snd (handleManageReportsIn coll args w)
     = foldl (\<lambda>w' c. snd (coll c w')) w (fst (handleManageReports conn args))"
  unfolding handleManageReportsIn_def Let_def
  using calls_independent[of "\<lambda>c. fst (coll c w)" args conn] by simp



subsection \<open>Faults of the collaborator\<close>

lemma fault_goes_to_catch:
  assumes "c \<in> set (fst (handleManageReports conn args))" and "conn c = Inl t"
  shows "snd (handleManageReports conn args) = caught (operation args) t"
  using assms
  by (cases "operation args")
     (auto simp: handleManageReports_def awaitCall_def reject_def split: option.splits)

lemma enhanceError_around: "\<exists>a b. enhanceError m = a @ m @ b"
proof -
  consider (access) "includes_str m ''INSUFFICIENT_ACCESS'' \<or> includes_str m ''INVALID_CROSS_REFERENCE''"
    | (missing) "\<not> (includes_str m ''INSUFFICIENT_ACCESS'' \<or> includes_str m ''INVALID_CROSS_REFERENCE'')"
        "includes_str m ''INVALID_ID_FIELD'' \<or> includes_str m ''NOT_FOUND''"
    | (other) "\<not> (includes_str m ''INSUFFICIENT_ACCESS'' \<or> includes_str m ''INVALID_CROSS_REFERENCE'')"
        "\<not> (includes_str m ''INVALID_ID_FIELD'' \<or> includes_str m ''NOT_FOUND'')"
    by blast
  then show ?thesis
  proof cases
    case access
    then have "enhanceError m = ''Access error: '' @ m
        @ ''\<newline>\<newline>Ensure the user has:\<newline>1. \"Run Reports\" permission\<newline>2. Access to the report's folder\<newline>3. The report ID is correct''"
      unfolding enhanceError_def by (simp only: if_True)
    then show ?thesis by blast
  next
    case missing
    then have "enhanceError m = ''Report not found: '' @ m
        @ ''\<newline>\<newline>Check that the report ID is valid and starts with \"00O\".''"
      unfolding enhanceError_def by (simp only: if_True if_False)
    then show ?thesis by blast
  next
    case other
    then have "enhanceError m = [] @ m @ []"
      unfolding enhanceError_def by (simp only: if_False append_Nil append_Nil2)
    then show ?thesis by blast
  qed
qed

lemma caught_message:
  assumes "case t of ErrorObject e \<Rightarrow> m = e | Thrown v \<Rightarrow> toStr v = Inr m"
  shows "caught op t = Inr \<lparr>replyText = ''Error in report '' @ opName op @ '': '' @ enhanceError m,
                            isError = True\<rparr>"
  using assms by (cases t) (simp_all add: caught_def)

text \<open>
  \<^bold>\<open>C7\<close> (as amended). When a remote call the handler issues throws an \<^verbatim>\<open>Error\<close>, whose
  message is then \<open>m\<close>, or any other value that \<^verbatim>\<open>String\<close> converts, to the text \<open>m\<close>,
  the reply has \<^verbatim>\<open>isError = true\<close> and its text contains \<open>m\<close>. The text is
  \<^verbatim>\<open>Error in report <operation>: \<close> followed by: the message between
  \<^verbatim>\<open>Access error: \<close> and the three-point hint when it contains \<^verbatim>\<open>INSUFFICIENT_ACCESS\<close> or
  \<^verbatim>\<open>INVALID_CROSS_REFERENCE\<close>; else the message between \<^verbatim>\<open>Report not found: \<close> and the hint
  on the id and its prefix when it contains \<^verbatim>\<open>INVALID_ID_FIELD\<close> or \<^verbatim>\<open>NOT_FOUND\<close>; else
  the message alone.
\<close>

theorem collaborator_fault_translated:
  assumes "c \<in> set (fst (handleManageReports conn args))"
    and "conn c = Inl t"
    and "case t of ErrorObject e \<Rightarrow> m = e | Thrown v \<Rightarrow> toStr v = Inr m"
  shows "\<exists>txt. snd (handleManageReports conn args) = Inr \<lparr>replyText = txt, isError = True\<rparr>
           \<and> sublist m txt
           \<and> txt = ''Error in report '' @ opName (operation args) @ '': ''
                 @ (if sublist ''INSUFFICIENT_ACCESS'' m \<or> sublist ''INVALID_CROSS_REFERENCE'' m
                    then ''Access error: '' @ m
                      @ ''\<newline>\<newline>Ensure the user has:\<newline>1. \"Run Reports\" permission\<newline>2. Access to the report's folder\<newline>3. The report ID is correct''
                    else if sublist ''INVALID_ID_FIELD'' m \<or> sublist ''NOT_FOUND'' m
                    then ''Report not found: '' @ m
                      @ ''\<newline>\<newline>Check that the report ID is valid and starts with \"00O\".''
                    else m)"
proof -
  have ret: "snd (handleManageReports conn args)
      = Inr \<lparr>replyText = ''Error in report '' @ opName (operation args) @ '': '' @ enhanceError m,
              isError = True\<rparr>"
    using fault_goes_to_catch[OF assms(1,2)] caught_message[OF assms(3)] by simp
  obtain a b where ab: "enhanceError m = a @ m @ b"
    using enhanceError_around[of m] by blast
  have "''Error in report '' @ opName (operation args) @ '': '' @ enhanceError m
      = (''Error in report '' @ opName (operation args) @ '': '' @ a) @ m @ b"
    unfolding ab by (simp only: append_assoc)
  then have sub: "sublist m (''Error in report '' @ opName (operation args) @ '': '' @ enhanceError m)"
    unfolding sublist_def by blast
  show ?thesis
    apply (rule exI[of _ "''Error in report '' @ opName (operation args) @ '': '' @ enhanceError m"])
    apply (intro conjI)
      apply (rule ret)
     apply (rule sub)
    apply (simp only: enhanceError_def includes_str_def)
    done
qed

theorem collaborator_fault_translated_witness:
  "snd (handleManageReports (\<lambda>c. Inl (ErrorObject ''NOT_FOUND''))
          \<lparr>operation = OpDescribe, reportId = Some ''00O5g00000AbCdE'', instanceId = None,
           includeDetails = None, filters = None, queryFilter = None, limit = None\<rparr>)
     = Inr \<lparr>replyText = ''Error in report describe: Report not found: NOT_FOUND\<newline>\<newline>Check that the report ID is valid and starts with \"00O\".'',
            isError = True\<rparr>
   \<and> snd (handleManageReports (\<lambda>c. Inl (Thrown (JStr ''boom'')))
          \<lparr>operation = OpList, reportId = None, instanceId = None,
           includeDetails = None, filters = None, queryFilter = None, limit = None\<rparr>)
     = Inr \<lparr>replyText = ''Error in report list: boom'', isError = True\<rparr>"
proof -
  let ?describe = "\<lparr>operation = OpDescribe, reportId = Some ''00O5g00000AbCdE'', instanceId = None,
           includeDetails = None, filters = None, queryFilter = None, limit = None\<rparr>"
  let ?list = "\<lparr>operation = OpList, reportId = None, instanceId = None,
           includeDetails = None, filters = None, queryFilter = None, limit = None\<rparr>"
  have c: "CallDescribe ''00O5g00000AbCdE''
             \<in> set (fst (handleManageReports (\<lambda>c. Inl (ErrorObject ''NOT_FOUND'')) ?describe))"
    by (simp add: handleManageReports_def fst_awaitCall nonEmpty_def)
  have no: "\<not> sublist ''INSUFFICIENT_ACCESS'' ''NOT_FOUND''"
           "\<not> sublist ''INVALID_CROSS_REFERENCE'' ''NOT_FOUND''"
    by (simp_all add: sublist_code)
  have yes: "sublist ''NOT_FOUND'' ''NOT_FOUND''" by simp
  have first: "snd (handleManageReports (\<lambda>c. Inl (ErrorObject ''NOT_FOUND'')) ?describe)
     = Inr \<lparr>replyText = ''Error in report describe: Report not found: NOT_FOUND\<newline>\<newline>Check that the report ID is valid and starts with \"00O\".'',
            isError = True\<rparr>"
    using collaborator_fault_translated[OF c, of "ErrorObject ''NOT_FOUND''" "''NOT_FOUND''"] no yes
    by simp
  have d: "CallReports \<in> set (fst (handleManageReports (\<lambda>c. Inl (Thrown (JStr ''boom''))) ?list))"
    by (simp add: handleManageReports_def fst_awaitCall nonEmpty_def)
  have none: "\<not> sublist ''INSUFFICIENT_ACCESS'' ''boom''"
             "\<not> sublist ''INVALID_CROSS_REFERENCE'' ''boom''"
             "\<not> sublist ''INVALID_ID_FIELD'' ''boom''"
             "\<not> sublist ''NOT_FOUND'' ''boom''"
    by (simp_all add: sublist_code)
  have second: "snd (handleManageReports (\<lambda>c. Inl (Thrown (JStr ''boom''))) ?list)
     = Inr \<lparr>replyText = ''Error in report list: boom'', isError = True\<rparr>"
    using collaborator_fault_translated[OF d, of "Thrown (JStr ''boom'')" "''boom''"] none
    by simp
  from first second show ?thesis by (rule conjI)
qed

text \<open>
  The claim as stated fails: not every fault ends in a reply. A thrown value that is
  not an \<^verbatim>\<open>Error\<close> and that \<^verbatim>\<open>String\<close> cannot convert, such as an object that owns a
  property \<^verbatim>\<open>toString\<close> which is no function, makes line 541 raise a TypeError inside
  the \<^verbatim>\<open>catch\<close> block, which nothing catches.
\<close>

theorem collaborator_fault_translated_counterexample:
  "fst (handleManageReports (\<lambda>c. Inl (Thrown (JObj [(''toString'', JNum 1)])))
          \<lparr>operation = OpList, reportId = None, instanceId = None,
           includeDetails = None, filters = None, queryFilter = None, limit = None\<rparr>)
     = [CallReports]
   \<and> snd (handleManageReports (\<lambda>c. Inl (Thrown (JObj [(''toString'', JNum 1)])))
          \<lparr>operation = OpList, reportId = None, instanceId = None,
           includeDetails = None, filters = None, queryFilter = None, limit = None\<rparr>)
     = Inl TypeError"
  by (simp add: handleManageReports_def awaitCall_def nonEmpty_def caught_def)

end
